theory Spec2Isabelle
  imports Complex_Main "HOL-Library.AList" "HOL-Library.Multiset" "HOL-Library.Char_ord"
    "HOL-Library.List_Lexorder" "HOL-Library.Log_Nat"
begin

section \<open>Contour tile options (types.ts)\<close>

text \<open>
  Numbers of the options are modelled as integers (zoom levels, elevations, pixel counts);
  JavaScript's doubles represent every integer of magnitude up to \<open>2^53\<close> exactly.
  An optional field of an interface is an \<open>option\<close>: \<open>None\<close> is the absent field.
\<close>

datatype sort_order = Asc | Desc

record ContourTileOptions =
  multiplier :: "int option"
  overzoom :: "int option"
  elevationKey :: "string option"
  levelKey :: "string option"
  contourLayer :: "string option"
  extent :: "int option"
  buffer :: "int option"
  subsampleBelow :: "int option"
  polygonLayer :: "string option"
  lowerElevationKey :: "string option"
  upperElevationKey :: "string option"
  spotGridSpacing :: "int option"
  spotSortOrder :: "sort_order option"
  spotLayer :: "string option"

text \<open>
  A value of \<open>thresholds\<close> is \<open>number | number[]\<close>. A zoom map \<open>{ [n: number]: v }\<close> is the
  list of its entries as \<open>Object.entries\<close> enumerates them, the zoom key kept as the integer
  that its property name spells.
\<close>

datatype threshold_value = Single int | Several "int list"

type_synonym 'v zoom_map = "(int \<times> 'v) list"

text \<open>
  \<open>GlobalContourTileOptions\<close>: the three per-zoom maps, and \<open>rest\<close>, the inherited
  \<open>ContourTileOptions\<close> fields that the source splits off with \<open>...rest\<close>.
\<close>

record GlobalContourTileOptions =
  thresholds :: "threshold_value zoom_map option"
  lineLevels :: "int list zoom_map option"
  polygonLevels :: "int list zoom_map option"
  rest :: ContourTileOptions

text \<open>
  \<open>IndividualContourTileOptions\<close>, as \<open>getOptionsForZoom\<close> builds it: \<open>lineLevels\<close> is always
  set (the fields carry the names of the locals they are filled from).
\<close>

record IndividualContourTileOptions =
  lineLevelsForZoom :: "int list"
  polygonLevelsForZoom :: "int list option"
  restForZoom :: ContourTileOptions

section \<open>JavaScript numbers: IEEE 754 double precision\<close>

text \<open>
  A finite double is given by its rational value (\<open>-0\<close> and \<open>0\<close> are the same value here);
  infinities and \<open>NaN\<close> are not values of this type. An arithmetic operation of JavaScript
  is the exact operation followed by rounding to the nearest double, ties to the even
  significand: \<open>roundToDouble\<close>. The doubles are the integer multiples \<open>m * 2^e\<close> with
  \<open>|m| < 2^53\<close> and \<open>e \<ge> -1074\<close>, below \<open>2^1024\<close> in magnitude. \<open>roundToDouble\<close> has no
  upper limit: a result of magnitude \<open>2^1024\<close> or more stands for an overflow to
  \<open>Infinity\<close>, which its users test for or exclude.
\<close>

text \<open>\<open>binade q\<close> is the integer \<open>e\<close> with \<open>2^e \<le> |q| < 2^(e+1)\<close>, for \<open>q\<close> not zero.\<close>

definition binade :: "rat \<Rightarrow> int" where
  "binade q =
     (let (a, b) = quotient_of \<bar>q\<bar>;
          e = bitlen a - bitlen b
      in if power_int 2 e \<le> \<bar>q\<bar> then e else e - 1)"

text \<open>The nearest integer, the even one of two nearest.\<close>

definition roundHalfEven :: "rat \<Rightarrow> int" where
  "roundHalfEven x =
     (let n = \<lfloor>x\<rfloor>;
          d = x - of_int n
      in if d < 1 / 2 then n else if 1 / 2 < d then n + 1 else if even n then n else n + 1)"

text \<open>
  The spacing of the doubles around \<open>q\<close> is \<open>2^(binade q - 52)\<close>, and \<open>2^-1074\<close> for the
  subnormal ones.
\<close>

definition ulpExponent :: "rat \<Rightarrow> int" where
  "ulpExponent q = max (binade q - 52) (- 1074)"

definition roundToDouble :: "rat \<Rightarrow> rat" where
  "roundToDouble q =
     (if q = 0 then 0
      else of_int (roundHalfEven (q / power_int 2 (ulpExponent q))) * power_int 2 (ulpExponent q))"

text \<open>A rounded result of this magnitude is \<open>Infinity\<close> or \<open>-Infinity\<close>.\<close>

definition overflows :: "rat \<Rightarrow> bool" where
  "overflows q = (2 ^ 1024 \<le> \<bar>q\<bar>)"

definition isDouble :: "rat \<Rightarrow> bool" where
  "isDouble q = (\<bar>q\<bar> < 2 ^ 1024 \<and> roundToDouble q = q)"

subsection \<open>The binade of a rational\<close>

lemma power_int_nat: "0 \<le> k \<Longrightarrow> power_int (2::rat) k = 2 ^ nat k"
  by (simp add: power_int_def)

lemma bitlen_rat_bounds:
  assumes "0 < a"
  shows "power_int 2 (bitlen a - 1) \<le> (of_int a :: rat)"
    and "(of_int a :: rat) < power_int 2 (bitlen a)"
proof -
  from bitlen_bounds [OF assms]
  have lo: "2 ^ nat (bitlen a - 1) \<le> a" and hi: "a < 2 ^ nat (bitlen a)" by simp_all
  have "bitlen a \<noteq> 0" using assms by (simp add: bitlen_eq_zero_iff)
  then have ge: "1 \<le> bitlen a" using bitlen_nonneg [of a] by linarith
  have "(of_int (2 ^ nat (bitlen a - 1)) :: rat) \<le> of_int a"
    using lo by (simp only: of_int_le_iff)
  then show "power_int 2 (bitlen a - 1) \<le> (of_int a :: rat)"
    using ge by (simp add: power_int_nat)
  have "(of_int a :: rat) < of_int (2 ^ nat (bitlen a))"
    using hi by (simp only: of_int_less_iff)
  then show "(of_int a :: rat) < power_int 2 (bitlen a)"
    using ge by (simp add: power_int_nat)
qed

lemma binade_bounds:
  assumes "q \<noteq> 0"
  shows "power_int 2 (binade q) \<le> \<bar>q\<bar>" and "\<bar>q\<bar> < power_int 2 (binade q + 1)"
proof -
  obtain a b where ab: "quotient_of \<bar>q\<bar> = (a, b)" by (cases "quotient_of \<bar>q\<bar>")
  have b: "0 < b" using ab by (rule quotient_of_denom_pos)
  have q: "\<bar>q\<bar> = of_int a / of_int b" using ab by (rule quotient_of_div)
  have "0 < \<bar>q\<bar>" using assms by simp
  then have "0 < (of_int a :: rat) / of_int b" by (simp only: q)
  then have a: "0 < a" using b by (simp add: zero_less_divide_iff)
  note A = bitlen_rat_bounds [OF a] and B = bitlen_rat_bounds [OF b]
  let ?e = "bitlen a - bitlen b"
  have bpos: "(0::rat) < of_int b" using b by simp
  have "\<bar>q\<bar> < power_int 2 (bitlen a) / power_int 2 (bitlen b - 1)"
  proof -
    have "\<bar>q\<bar> < power_int 2 (bitlen a) / of_int b"
      unfolding q using A(2) bpos by (simp add: divide_strict_right_mono)
    also have "\<dots> \<le> power_int 2 (bitlen a) / power_int 2 (bitlen b - 1)"
      using B(1) bpos by (intro divide_left_mono mult_pos_pos) simp_all
    finally show ?thesis .
  qed
  also have "\<dots> = power_int 2 (?e + 1)"
    by (simp add: power_int_diff [symmetric] algebra_simps)
  finally have hi: "\<bar>q\<bar> < power_int 2 (?e + 1)" .
  have "power_int 2 (bitlen a - 1) / power_int 2 (bitlen b) \<le> \<bar>q\<bar>"
  proof -
    have "power_int 2 (bitlen a - 1) / power_int 2 (bitlen b)
            \<le> power_int 2 (bitlen a - 1) / (of_int b :: rat)"
      using B(2) bpos by (intro divide_left_mono mult_pos_pos) simp_all
    also have "\<dots> \<le> \<bar>q\<bar>"
      unfolding q using A(1) bpos by (simp add: divide_right_mono)
    finally show ?thesis .
  qed
  moreover have "power_int 2 (bitlen a - 1) / power_int (2::rat) (bitlen b) = power_int 2 (?e - 1)"
    by (simp add: power_int_diff [symmetric] algebra_simps)
  ultimately have lo: "power_int 2 (?e - 1) \<le> \<bar>q\<bar>" by simp
  have binade: "binade q = (if power_int 2 ?e \<le> \<bar>q\<bar> then ?e else ?e - 1)"
    by (simp add: binade_def ab Let_def)
  show "power_int 2 (binade q) \<le> \<bar>q\<bar>"
    using lo by (simp add: binade)
  show "\<bar>q\<bar> < power_int 2 (binade q + 1)"
    using hi by (auto simp: binade)
qed

lemma power_int_less_exp:
  assumes "power_int (2::rat) m < power_int 2 n"
  shows "m < n"
proof (rule ccontr)
  assume "\<not> m < n"
  then have "n \<le> m" by simp
  then have "power_int (2::rat) n \<le> power_int 2 m"
    by (intro power_int_increasing) simp_all
  with assms show False by simp
qed



text \<open>The overflow test by the binade, which also evaluates quickly.\<close>

lemma overflows_binade [code]: "overflows q = (q \<noteq> 0 \<and> 1024 \<le> binade q)"
proof (cases "q = 0")
  case True
  then show ?thesis by (simp add: overflows_def)
next
  case False
  note B = binade_bounds [OF False]
  have p: "power_int (2::rat) 1024 = 2 ^ 1024" by simp
  show ?thesis
  proof (cases "1024 \<le> binade q")
    case True
    then have "power_int (2::rat) 1024 \<le> power_int 2 (binade q)"
      by (intro power_int_increasing) simp_all
    with B(1) have "power_int (2::rat) 1024 \<le> \<bar>q\<bar>" by simp
    with True False show ?thesis unfolding overflows_def p by simp
  next
    case less: False
    then have "binade q + 1 \<le> 1024" by simp
    then have "power_int (2::rat) (binade q + 1) \<le> power_int 2 1024"
      by (intro power_int_increasing) simp_all
    with B(2) have "\<bar>q\<bar> < power_int (2::rat) 1024" by simp
    with less show ?thesis unfolding overflows_def p by simp
  qed
qed

subsection \<open>Rounding to the nearest integer, ties to even\<close>



lemma roundHalfEven_int: "roundHalfEven (of_int k) = k"
  by (simp add: roundHalfEven_def)


lemma roundHalfEven_up: "of_int n - 1 / 2 < x \<Longrightarrow> x < of_int n \<Longrightarrow> roundHalfEven x = n"
proof -
  assume lo: "of_int n - 1 / 2 < x" and hi: "x < of_int n"
  have "\<lfloor>x\<rfloor> = n - 1" using lo hi by (intro floor_unique) simp_all
  then show ?thesis using lo by (simp add: roundHalfEven_def)
qed

subsection \<open>Rounding to the nearest double\<close>

lemma ulp_pos: "(0::rat) < power_int 2 (ulpExponent q)"
  by simp

lemma roundToDouble_zero: "roundToDouble 0 = 0"
  by (simp add: roundToDouble_def)






subsection \<open>Values that rounding leaves unchanged\<close>

lemma roundToDouble_exact:
  assumes m: "\<bar>m\<bar> < 2 ^ 53" and j: "- 1074 \<le> j"
  shows "roundToDouble (of_int m * power_int 2 j) = of_int m * power_int 2 j"
proof (cases "m = 0")
  case True
  then show ?thesis by (simp add: roundToDouble_zero)
next
  case False
  let ?q = "of_int m * power_int (2::rat) j"
  let ?e = "ulpExponent ?q"
  have q: "?q \<noteq> 0" using False by simp
  have "\<bar>?q\<bar> = of_int \<bar>m\<bar> * power_int 2 j"
    by (simp add: abs_mult)
  also have "\<dots> < of_int (2 ^ 53) * power_int 2 j"
    using m by (intro mult_strict_right_mono) (simp_all only: of_int_less_iff zero_less_power_int zero_less_numeral)
  also have "\<dots> = power_int 2 (53 + j)"
    by (simp add: power_int_add)
  finally have "\<bar>?q\<bar> < power_int 2 (53 + j)" .
  moreover have "power_int 2 (binade ?q) \<le> \<bar>?q\<bar>" using q by (rule binade_bounds)
  ultimately have "power_int (2::rat) (binade ?q) < power_int 2 (53 + j)" by simp
  then have "binade ?q < 53 + j" by (rule power_int_less_exp)
  then have e: "?e \<le> j" using j unfolding ulpExponent_def by linarith
  then have nn: "0 \<le> j - ?e" by simp
  have "power_int (2::rat) j = power_int 2 (j - ?e) * power_int 2 ?e"
    by (simp add: power_int_add [symmetric])
  also have "power_int (2::rat) (j - ?e) = of_int (2 ^ nat (j - ?e))"
    using nn by (simp add: power_int_nat)
  finally have split: "?q = of_int (m * 2 ^ nat (j - ?e)) * power_int 2 ?e"
    by (simp add: mult.assoc)
  have "?q / power_int 2 ?e = of_int (m * 2 ^ nat (j - ?e))"
    by (subst split) simp
  then have "roundHalfEven (?q / power_int 2 ?e) = m * 2 ^ nat (j - ?e)"
    by (simp only: roundHalfEven_int)
  then have "roundToDouble ?q = of_int (m * 2 ^ nat (j - ?e)) * power_int 2 ?e"
    using q by (simp only: roundToDouble_def if_False)
  then show ?thesis by (simp only: split [symmetric])
qed

lemma roundToDouble_int: "\<bar>n\<bar> < 2 ^ 53 \<Longrightarrow> roundToDouble (of_int n) = of_int n"
  using roundToDouble_exact [of n 0] by simp

lemma roundToDouble_dyadic:
  assumes "\<bar>m\<bar> < 2 ^ 53" and "k \<le> 1074"
  shows "roundToDouble (of_int m / 2 ^ k) = of_int m / 2 ^ k"
proof -
  have "power_int (2::rat) (- int k) = 1 / 2 ^ k"
    by (simp add: power_int_minus divide_inverse)
  with roundToDouble_exact [of m "- int k"] assms show ?thesis by simp
qed

lemma isDouble_int: "\<bar>n\<bar> < 2 ^ 53 \<Longrightarrow> isDouble (of_int n)"
proof -
  assume n: "\<bar>n\<bar> < 2 ^ 53"
  have "(2::int) ^ 53 < 2 ^ 1024" by simp
  with n have "\<bar>n\<bar> < 2 ^ 1024" by linarith
  then have "(of_int \<bar>n\<bar> :: rat) < of_int (2 ^ 1024)" by (simp only: of_int_less_iff)
  then show ?thesis using n by (simp add: isDouble_def roundToDouble_int)
qed


section \<open>The JavaScript runtime: strings and numbers\<close>

subsection \<open>Strings: split and trim\<close>

text \<open>
  \<open>s.split(c)\<close> for a one-character separator: the part before the first separator, then
  the split of what follows it; a string without separator (also the empty one) is its own
  single part.
\<close>

function splitOn :: "char \<Rightarrow> string \<Rightarrow> string list" where
  "splitOn c s =
     (case dropWhile (\<lambda>x. x \<noteq> c) s of
        [] \<Rightarrow> [s]
      | sep # after \<Rightarrow> takeWhile (\<lambda>x. x \<noteq> c) s # splitOn c after)"
  by pat_completeness auto
termination
proof (relation "measure (\<lambda>(c, s). length s)")
  show "wf (measure (\<lambda>(c, s). length s))" by simp
next
  fix c :: char and s :: string and sep after
  assume "dropWhile (\<lambda>x. x \<noteq> c) s = sep # after"
  then have "length (dropWhile (\<lambda>x. x \<noteq> c) s) = Suc (length after)" by simp
  moreover have "length (dropWhile (\<lambda>x. x \<noteq> c) s) \<le> length s" by (rule length_dropWhile_le)
  ultimately show "((c, after), (c, s)) \<in> measure (\<lambda>(c, s). length s)" by simp
qed

declare splitOn.simps [simp del]

text \<open>
  \<open>s.trim()\<close> on ASCII strings: tab, line feed, vertical tab, form feed, carriage return and
  space are removed at both ends.
\<close>

definition isSpace :: "char \<Rightarrow> bool" where
  "isSpace c = (c \<in> set [CHR 0x09, CHR 0x0A, CHR 0x0B, CHR 0x0C, CHR 0x0D, CHR 0x20])"

definition trim :: "string \<Rightarrow> string" where
  "trim s = rev (dropWhile isSpace (rev (dropWhile isSpace s)))"

subsection \<open>Numbers and their decimal strings\<close>

text \<open>
  A number of the model is an integer or \<open>NaN\<close>. \<open>numberToString\<close> is \<open>String(n)\<close> (also the
  property name of a numeric key, and \<open>${n}\<close> in a template literal): for an integer below
  \<open>10^21\<close> in magnitude, the decimal digits with a leading minus sign when negative.
\<close>

datatype jsnum = Num int | NaN

function digitsOf :: "int \<Rightarrow> string" where
  "digitsOf n =
     (if n < 10 then [''0123456789'' ! nat n]
      else digitsOf (n div 10) @ [''0123456789'' ! nat (n mod 10)])"
  by pat_completeness auto
termination
proof (relation "measure nat")
  show "wf (measure nat)" by simp
next
  fix n :: int
  assume "\<not> n < 10"
  then have "n div 10 < n" by (intro int_div_less_self) auto
  moreover from \<open>\<not> n < 10\<close> have "0 < n" by simp
  ultimately show "(n div 10, n) \<in> measure nat" by simp
qed

declare digitsOf.simps [simp del]

definition numberToString :: "int \<Rightarrow> string" where
  "numberToString i = (if i < 0 then CHR ''-'' # digitsOf (- i) else digitsOf i)"

definition jsnumToString :: "jsnum \<Rightarrow> string" where
  "jsnumToString v = (case v of Num i \<Rightarrow> numberToString i | NaN \<Rightarrow> ''NaN'')"

text \<open>
  \<open>Number(s)\<close> follows the grammar \<open>StringNumericLiteral\<close> of ECMAScript on ASCII strings:
  white space is stripped, the empty string is 0, an optionally signed run of decimal digits
  is its value. The other numeric literals (a fraction, an exponent, \<open>Infinity\<close>, a radix
  prefix) and integers above \<open>2^53 = 9007199254740992\<close> denote numbers outside the integer model: they are
  recognised and answered with \<open>None\<close>. Every other string is \<open>NaN\<close>.
\<close>

definition isDigit :: "char \<Rightarrow> bool" where
  "isDigit c = (c \<in> set ''0123456789'')"

definition digitValue :: "char \<Rightarrow> int" where
  "digitValue c = of_char c - 48"

definition decimalValue :: "string \<Rightarrow> int" where
  "decimalValue ds = foldl (\<lambda>n c. 10 * n + digitValue c) 0 ds"

definition decimalDigits :: "string \<Rightarrow> bool" where
  "decimalDigits ds = (ds \<noteq> [] \<and> list_all isDigit ds)"

definition dropSign :: "string \<Rightarrow> string" where
  "dropSign s =
     (case s of [] \<Rightarrow> [] | c # r \<Rightarrow> if c = CHR ''+'' \<or> c = CHR ''-'' then r else s)"

definition exponentPart :: "string \<Rightarrow> bool" where
  "exponentPart s =
     (case s of [] \<Rightarrow> False
      | e # r \<Rightarrow> (e = CHR ''e'' \<or> e = CHR ''E'') \<and> decimalDigits (dropSign r))"

definition unsignedDecimalLiteral :: "string \<Rightarrow> bool" where
  "unsignedDecimalLiteral u =
     (u = ''Infinity'' \<or>
      (let ip = takeWhile isDigit u; r = dropWhile isDigit u
       in case r of
            [] \<Rightarrow> ip \<noteq> []
          | c # r' \<Rightarrow>
              if c = CHR ''.''
              then (let fp = takeWhile isDigit r'; r'' = dropWhile isDigit r'
                    in (ip \<noteq> [] \<or> fp \<noteq> []) \<and> (r'' = [] \<or> exponentPart r''))
              else ip \<noteq> [] \<and> exponentPart r))"

definition radixLiteral :: "string \<Rightarrow> bool" where
  "radixLiteral s =
     (case s of
        z # x # ds \<Rightarrow>
          z = CHR ''0'' \<and> ds \<noteq> [] \<and>
          ((x \<in> set ''xX'' \<and> list_all (\<lambda>c. c \<in> set ''0123456789abcdefABCDEF'') ds)
           \<or> (x \<in> set ''oO'' \<and> list_all (\<lambda>c. c \<in> set ''01234567'') ds)
           \<or> (x \<in> set ''bB'' \<and> list_all (\<lambda>c. c \<in> set ''01'') ds))
      | _ \<Rightarrow> False)"

definition numericLiteral :: "string \<Rightarrow> bool" where
  "numericLiteral s = (unsignedDecimalLiteral (dropSign s) \<or> radixLiteral s)"

definition stringToNumber :: "string \<Rightarrow> jsnum option" where
  "stringToNumber s =
     (let t = trim s
      in if t = [] then Some (Num 0)
         else if decimalDigits (dropSign t) \<and> decimalValue (dropSign t) \<le> 9007199254740992
         then Some (Num (if hd t = CHR ''-'' then - decimalValue (dropSign t)
                         else decimalValue (dropSign t)))
         else if numericLiteral t then None
         else Some NaN)"

section \<open>Resolving the options of one zoom (utils.ts, getOptionsForZoom)\<close>

text \<open>
  The body of each \<open>forEach\<close>: the loop carries \<open>maxLessThanOrEqualTo\<close> (\<open>None\<close> is
  \<open>-Infinity\<close>) and the variable it assigns. \<open>f\<close> is what is stored for a selected value.
\<close>

definition aboveMax :: "int \<Rightarrow> int option \<Rightarrow> bool" where
  "aboveMax z m = (case m of None \<Rightarrow> True | Some k \<Rightarrow> z > k)"

definition zoomStep :: "int \<Rightarrow> ('v \<Rightarrow> 'r) \<Rightarrow> int option \<times> 'r \<Rightarrow> int \<times> 'v \<Rightarrow> int option \<times> 'r" where
  "zoomStep zoom f st e =
     (if fst e \<le> zoom \<and> aboveMax (fst e) (fst st) then (Some (fst e), f (snd e)) else st)"

definition zoomScan :: "int \<Rightarrow> ('v \<Rightarrow> 'r) \<Rightarrow> 'r \<Rightarrow> 'v zoom_map \<Rightarrow> 'r" where
  "zoomScan zoom f cur entries = snd (foldl (zoomStep zoom f) (None, cur) entries)"

definition thresholdList :: "threshold_value \<Rightarrow> int list" where
  "thresholdList v = (case v of Single n \<Rightarrow> [n] | Several ns \<Rightarrow> ns)"

datatype config_error = ConfigError

text \<open>
  The source has no \<open>throw\<close>: every call returns, which the result type records as \<open>Inr\<close>.
\<close>

definition getOptionsForZoom ::
  "GlobalContourTileOptions \<Rightarrow> int \<Rightarrow> config_error + IndividualContourTileOptions" where
  "getOptionsForZoom options zoom =
     (let l0 = [];
          p0 = None;
          l1 = (case thresholds options of None \<Rightarrow> l0
                | Some t \<Rightarrow> zoomScan zoom thresholdList l0 t);
          l2 = (case lineLevels options of None \<Rightarrow> l1
                | Some m \<Rightarrow> zoomScan zoom (\<lambda>value. value) l1 m);
          p1 = (case polygonLevels options of None \<Rightarrow> p0
                | Some m \<Rightarrow> zoomScan zoom Some p0 m)
      in Inr \<lparr> lineLevelsForZoom = l2, polygonLevelsForZoom = p1, restForZoom = rest options \<rparr>)"

text \<open>
  The words of the specification: the value at the largest configured key that is at most
  the requested zoom, if there is one.
\<close>

definition keysUpTo :: "int \<Rightarrow> 'v zoom_map \<Rightarrow> int set" where
  "keysUpTo zoom m = {k \<in> fst ` set m. k \<le> zoom}"

definition valueAtLargestKey :: "int \<Rightarrow> 'v zoom_map \<Rightarrow> 'v option" where
  "valueAtLargestKey zoom m =
     (if keysUpTo zoom m = {} then None else map_of m (Max (keysUpTo zoom m)))"

definition axisValue :: "int \<Rightarrow> 'v zoom_map option \<Rightarrow> 'v option" where
  "axisValue zoom axis = (case axis of None \<Rightarrow> None | Some m \<Rightarrow> valueAtLargestKey zoom m)"

subsection \<open>The scan selects the value at the largest key not above the zoom\<close>

definition keysAbove :: "int \<Rightarrow> int option \<Rightarrow> 'v zoom_map \<Rightarrow> int set" where
  "keysAbove zoom mx m = {k \<in> fst ` set m. k \<le> zoom \<and> aboveMax k mx}"

lemma keysAbove_Nil: "keysAbove zoom mx [] = {}"
  by (simp add: keysAbove_def)

lemma finite_keysAbove: "finite (keysAbove zoom mx m)"
  by (simp add: keysAbove_def)

lemma keysAbove_None: "keysAbove zoom None m = keysUpTo zoom m"
  by (simp add: keysAbove_def keysUpTo_def aboveMax_def)

lemma keysAbove_Cons_skip:
  "\<not> (k \<le> zoom \<and> aboveMax k mx) \<Longrightarrow> keysAbove zoom mx ((k, v) # m) = keysAbove zoom mx m"
  by (auto simp: keysAbove_def)

lemma keysAbove_Cons_take:
  "k \<le> zoom \<Longrightarrow> aboveMax k mx \<Longrightarrow>
   keysAbove zoom mx ((k, v) # m) = insert k (keysAbove zoom mx m)"
  by (auto simp: keysAbove_def)

lemma keysAbove_Some:
  "aboveMax k mx \<Longrightarrow> keysAbove zoom (Some k) m = {j \<in> keysAbove zoom mx m. k < j}"
  by (auto simp: keysAbove_def aboveMax_def split: option.splits)

lemma Max_insert_above:
  fixes k :: int
  assumes "finite A"
  shows "Max (insert k A) = (if {j \<in> A. k < j} = {} then k else Max {j \<in> A. k < j})"
proof (cases "{j \<in> A. k < j} = {}")
  case True
  then have "\<forall>a\<in>A. a \<le> k" by auto
  then have "Max (insert k A) = k"
    using assms by (intro Max_eqI) auto
  with True show ?thesis by simp
next
  case False
  let ?B = "{j \<in> A. k < j}"
  have finB: "finite ?B" using assms by simp
  have inB: "Max ?B \<in> ?B" using False finB by (rule_tac Max_in) auto
  have "Max (insert k A) = Max ?B"
  proof (rule Max_eqI)
    show "finite (insert k A)" using assms by simp
    show "Max ?B \<in> insert k A" using inB by simp
    fix y assume y: "y \<in> insert k A"
    show "y \<le> Max ?B"
    proof (cases "k < y")
      case True
      with y have "y \<in> ?B" by auto
      then show ?thesis using finB by (rule_tac Max_ge) auto
    next
      case False
      then show ?thesis using inB by simp
    qed
  qed
  with False show ?thesis by auto
qed

lemma foldl_zoomStep:
  "foldl (zoomStep zoom f) (mx, cur) m =
     (if keysAbove zoom mx m = {} then (mx, cur)
      else (Some (Max (keysAbove zoom mx m)), f (the (map_of m (Max (keysAbove zoom mx m))))))"
proof (induction m arbitrary: mx cur)
  case Nil
  show ?case by (simp add: keysAbove_Nil)
next
  case (Cons e m)
  obtain k v where e: "e = (k, v)" by (cases e)
  show ?case
  proof (cases "k \<le> zoom \<and> aboveMax k mx")
    case False
    have step: "zoomStep zoom f (mx, cur) (k, v) = (mx, cur)"
      using False by (auto simp: zoomStep_def)
    have keys: "keysAbove zoom mx ((k, v) # m) = keysAbove zoom mx m"
      using False by (simp add: keysAbove_Cons_skip)
    have notk: "Max (keysAbove zoom mx m) \<noteq> k" if ne: "keysAbove zoom mx m \<noteq> {}"
    proof
      assume eq: "Max (keysAbove zoom mx m) = k"
      have "Max (keysAbove zoom mx m) \<in> keysAbove zoom mx m"
        using ne finite_keysAbove by (rule_tac Max_in) auto
      then have "k \<in> keysAbove zoom mx m" by (simp only: eq)
      then have "k \<le> zoom \<and> aboveMax k mx" by (simp add: keysAbove_def)
      with False show False by simp
    qed
    show ?thesis
      using notk by (simp add: e step keys Cons.IH)
  next
    case True
    have step: "zoomStep zoom f (mx, cur) (k, v) = (Some k, f v)"
      using True by (simp add: zoomStep_def)
    have keys: "keysAbove zoom mx ((k, v) # m) = insert k (keysAbove zoom mx m)"
      using True by (simp add: keysAbove_Cons_take)
    have above: "keysAbove zoom (Some k) m = {j \<in> keysAbove zoom mx m. k < j}"
      using True by (simp add: keysAbove_Some)
    have mx: "Max (insert k (keysAbove zoom mx m)) =
        (if keysAbove zoom (Some k) m = {} then k else Max (keysAbove zoom (Some k) m))"
      by (simp only: above Max_insert_above [OF finite_keysAbove])
    show ?thesis
    proof (cases "keysAbove zoom (Some k) m = {}")
      case True
      then show ?thesis by (simp add: e step keys Cons.IH mx)
    next
      case ne: False
      have "Max (keysAbove zoom (Some k) m) \<in> keysAbove zoom (Some k) m"
        using ne finite_keysAbove by (rule_tac Max_in) auto
      then have gt: "k < Max (keysAbove zoom (Some k) m)"
        by (simp add: keysAbove_def aboveMax_def)
      show ?thesis
        using ne gt by (simp add: e step keys Cons.IH mx)
    qed
  qed
qed

lemma zoomScan_axis:
  "zoomScan zoom f cur m =
     (case valueAtLargestKey zoom m of None \<Rightarrow> cur | Some v \<Rightarrow> f v)"
proof (cases "keysUpTo zoom m = {}")
  case True
  then show ?thesis
    by (simp add: zoomScan_def foldl_zoomStep keysAbove_None valueAtLargestKey_def)
next
  case False
  have "Max (keysUpTo zoom m) \<in> keysUpTo zoom m"
    using False by (intro Max_in) (auto simp: keysUpTo_def)
  then have "Max (keysUpTo zoom m) \<in> fst ` set m" by (simp add: keysUpTo_def)
  then obtain v where "map_of m (Max (keysUpTo zoom m)) = Some v"
    by (metis domD dom_map_of_conv_image_fst)
  then show ?thesis
    using False by (simp add: zoomScan_def foldl_zoomStep keysAbove_None valueAtLargestKey_def)
qed

lemma getOptionsForZoom_resolved:
  "getOptionsForZoom options zoom =
     Inr \<lparr> lineLevelsForZoom =
             (case axisValue zoom (lineLevels options) of
                Some l \<Rightarrow> l
              | None \<Rightarrow> (case axisValue zoom (thresholds options) of
                           Some t \<Rightarrow> thresholdList t
                         | None \<Rightarrow> [])),
           polygonLevelsForZoom = axisValue zoom (polygonLevels options),
           restForZoom = rest options \<rparr>"
  by (simp add: getOptionsForZoom_def axisValue_def zoomScan_axis
           split: option.splits)

subsection \<open>Example configurations\<close>

definition emptyRest :: ContourTileOptions where
  "emptyRest = \<lparr> multiplier = None, overzoom = None, elevationKey = None, levelKey = None,
      contourLayer = None, extent = None, buffer = None, subsampleBelow = None,
      polygonLayer = None, lowerElevationKey = None, upperElevationKey = None,
      spotGridSpacing = None, spotSortOrder = None, spotLayer = None \<rparr>"

text \<open>The staircase of the specification, \<open>{8: [50], 11: [50, 100]}\<close>, with polygon levels at zoom 10.\<close>

definition staircase :: GlobalContourTileOptions where
  "staircase = \<lparr> thresholds = Some [(8, Several [50]), (11, Several [50, 100])],
      lineLevels = None, polygonLevels = Some [(10, [0, 500])], rest = emptyRest \<rparr>"

text \<open>Both line modes configured at zoom 11.\<close>

definition bothModes :: GlobalContourTileOptions where
  "bothModes = \<lparr> thresholds = Some [(11, Several [100, 200])],
      lineLevels = Some [(11, [500, 700])], polygonLevels = None, rest = emptyRest \<rparr>"

text \<open>Both line modes configured at different zooms.\<close>

definition mixedModes :: GlobalContourTileOptions where
  "mixedModes = \<lparr> thresholds = Some [(8, Several [50]), (11, Several [50, 100])],
      lineLevels = Some [(10, [500])], polygonLevels = None, rest = emptyRest \<rparr>"

text \<open>A threshold given as a single number, \<open>{8: 20}\<close>.\<close>

definition scalarStep :: GlobalContourTileOptions where
  "scalarStep = \<lparr> thresholds = Some [(8, Single 20)],
      lineLevels = None, polygonLevels = None, rest = emptyRest \<rparr>"

lemma keysUpTo_Cons:
  "keysUpTo zoom ((k, v) # m) = (if k \<le> zoom then insert k (keysUpTo zoom m) else keysUpTo zoom m)"
  by (auto simp: keysUpTo_def)

lemma keysUpTo_Nil: "keysUpTo zoom [] = {}"
  by (simp add: keysUpTo_def)

subsection \<open>Claims about getOptionsForZoom\<close>

text \<open>
  Claim C3, as stated, fails: the three axes are not resolved independently. With thresholds
  \<open>{8: [50], 11: [50, 100]}\<close> and fixed line levels \<open>{10: [500]}\<close>, at zoom 12 the thresholds
  axis has the value \<open>[50, 100]\<close> at its largest key, but the result carries only \<open>[500]\<close>;
  and at zoom 9 the \<open>lineLevels\<close> axis has no key at or below the zoom, yet the resolved line
  levels are not empty.
\<close>

theorem getOptionsForZoom_axes_counterexample:
  "axisValue 12 (thresholds mixedModes) = Some (Several [50, 100])
   \<and> getOptionsForZoom mixedModes 12 =
       Inr \<lparr> lineLevelsForZoom = [500], polygonLevelsForZoom = None, restForZoom = emptyRest \<rparr>
   \<and> axisValue 9 (lineLevels mixedModes) = None
   \<and> getOptionsForZoom mixedModes 9 =
       Inr \<lparr> lineLevelsForZoom = [50], polygonLevelsForZoom = None, restForZoom = emptyRest \<rparr>"
  by (simp add: mixedModes_def axisValue_def valueAtLargestKey_def keysUpTo_Cons keysUpTo_Nil
        getOptionsForZoom_resolved thresholdList_def)

text \<open>
  Claim C3, amended. For every options value and every zoom, \<open>getOptionsForZoom\<close> returns.
  Each axis has the value at its largest key that is at most the zoom (\<open>axisValue\<close>), never a
  value of a higher key. The resolved polygon levels are that value of \<open>polygonLevels\<close>,
  undefined when it has none. The axes \<open>thresholds\<close> and \<open>lineLevels\<close> are not independent:
  they share the resolved line levels, which are the value of \<open>lineLevels\<close> when it has one,
  otherwise the value of \<open>thresholds\<close> (a single number \<open>n\<close> as the list \<open>[n]\<close>, an array as
  it is), and the empty list only when neither has a key at or below the zoom.
\<close>

theorem getOptionsForZoom_line_levels_priority:
  "\<exists>r. getOptionsForZoom options zoom = Inr r
     \<and> lineLevelsForZoom r =
         (case axisValue zoom (lineLevels options) of
            Some l \<Rightarrow> l
          | None \<Rightarrow> (case axisValue zoom (thresholds options) of
                       Some (Single n) \<Rightarrow> [n]
                     | Some (Several ns) \<Rightarrow> ns
                     | None \<Rightarrow> []))
     \<and> polygonLevelsForZoom r = axisValue zoom (polygonLevels options)
     \<and> restForZoom r = rest options"
  by (simp add: getOptionsForZoom_resolved thresholdList_def
           split: option.splits threshold_value.splits)

theorem getOptionsForZoom_line_levels_priority_witness:
  "(\<exists>r. getOptionsForZoom staircase 9 = Inr r \<and> lineLevelsForZoom r = [50]
        \<and> polygonLevelsForZoom r = None)
   \<and> (\<exists>r. getOptionsForZoom staircase 12 = Inr r \<and> lineLevelsForZoom r = [50, 100]
        \<and> polygonLevelsForZoom r = Some [0, 500])
   \<and> (\<exists>r. getOptionsForZoom staircase 5 = Inr r \<and> lineLevelsForZoom r = []
        \<and> polygonLevelsForZoom r = None)
   \<and> (\<exists>r. getOptionsForZoom scalarStep 9 = Inr r \<and> lineLevelsForZoom r = [20])"
  using getOptionsForZoom_line_levels_priority [of staircase 9]
        getOptionsForZoom_line_levels_priority [of staircase 12]
        getOptionsForZoom_line_levels_priority [of staircase 5]
        getOptionsForZoom_line_levels_priority [of scalarStep 9]
  by (auto simp: staircase_def scalarStep_def axisValue_def valueAtLargestKey_def
        keysUpTo_Cons keysUpTo_Nil)

text \<open>
  Claim C2, as stated, fails: with thresholds and fixed line levels both resolving to
  non-empty values at zoom 11, \<open>getOptionsForZoom\<close> returns a result, and its line levels are
  the fixed ones.
\<close>

theorem getOptionsForZoom_both_modes_counterexample:
  "axisValue 11 (thresholds bothModes) = Some (Several [100, 200])
   \<and> axisValue 11 (lineLevels bothModes) = Some [500, 700]
   \<and> getOptionsForZoom bothModes 11 =
       Inr \<lparr> lineLevelsForZoom = [500, 700], polygonLevelsForZoom = None,
             restForZoom = emptyRest \<rparr>"
  by (simp add: bothModes_def axisValue_def valueAtLargestKey_def keysUpTo_Cons keysUpTo_Nil
        getOptionsForZoom_resolved)

text \<open>
  Claim C2, amended. \<open>getOptionsForZoom\<close> reports no error for any options value and zoom;
  whenever the fixed-line configuration resolves at the zoom, the resolved line levels are
  its value, whatever the thresholds configuration holds.
\<close>

theorem getOptionsForZoom_fixed_lines_win:
  "(\<exists>r. getOptionsForZoom options zoom = Inr r)
   \<and> (\<forall>l. axisValue zoom (lineLevels options) = Some l \<longrightarrow>
          getOptionsForZoom options zoom =
            Inr \<lparr> lineLevelsForZoom = l,
                  polygonLevelsForZoom = axisValue zoom (polygonLevels options),
                  restForZoom = rest options \<rparr>)"
  by (simp add: getOptionsForZoom_resolved)

theorem getOptionsForZoom_fixed_lines_win_witness:
  "axisValue 11 (lineLevels bothModes) = Some [500, 700]
   \<and> getOptionsForZoom bothModes 11 =
       Inr \<lparr> lineLevelsForZoom = [500, 700],
             polygonLevelsForZoom = axisValue 11 (polygonLevels bothModes),
             restForZoom = rest bothModes \<rparr>"
proof -
  have l: "axisValue 11 (lineLevels bothModes) = Some [500, 700]"
    by (simp add: bothModes_def axisValue_def valueAtLargestKey_def keysUpTo_Cons keysUpTo_Nil)
  from getOptionsForZoom_fixed_lines_win [of bothModes 11] l show ?thesis by blast
qed

section \<open>Contouring with the marching-squares library (isolines-ms.ts, isobands-ms.ts)\<close>

text \<open>
  The contouring functions compare, subtract and print elevation levels and hand them to
  the library: levels are values of any linearly ordered number type \<open>'n\<close>. What the
  JavaScript runtime and the \<open>marching-squares\<close> package provide are parameters of the model:
  \<open>Number\<close> (string to number, \<open>None\<close> for \<open>NaN\<close>), \<open>String\<close> (number to string, as a
  property name or in a template literal), \<open>isoLines\<close> and \<open>isoBands\<close> (which may throw).
  Grid samples are of any type \<open>'h\<close>; ring coordinates and the extent are doubles, given by
  their rational values.
\<close>

record 'h HeightTile =
  width :: int
  height :: int
  get :: "int \<Rightarrow> int \<Rightarrow> 'h"

datatype 'n levels_arg = LevelArray "'n list" | LevelString string

record ms_options =
  linearRing :: bool
  noFrame :: bool

datatype ms_error = MSError

type_synonym coord = "rat \<times> rat"

type_synonym ring = "coord list"

text \<open>
  A coordinate of the output: \<open>Math.round(x * scale)\<close> with \<open>scale = extent / (width - 1)\<close>,
  the quotient and the product rounded as doubles are. \<open>Math.round\<close> is exact: the nearest
  integer, the larger one of two nearest. For \<open>width = 1\<close> the division is by zero, the scale
  is infinite or \<open>NaN\<close>, and so is every product and its rounding; a product that overflows
  is infinite as well (\<open>NonFinite\<close>).
\<close>

datatype outcoord = Px int | NonFinite

definition mathRound :: "rat \<Rightarrow> int" where
  "mathRound v = \<lfloor>v + 1 / 2\<rfloor>"

definition scaled :: "rat \<Rightarrow> int \<Rightarrow> rat \<Rightarrow> outcoord" where
  "scaled ext w x =
     (if w - 1 = 0 then NonFinite
      else
        (let scale = roundToDouble (ext / of_int (w - 1));
             product = roundToDouble (x * scale)
         in if overflows product then NonFinite else Px (mathRound product)))"

definition flatten :: "rat \<Rightarrow> int \<Rightarrow> ring \<Rightarrow> outcoord list" where
  "flatten ext w path = concat (map (\<lambda>(x, y). [scaled ext w x, scaled ext w y]) path)"

definition extentOrDefault :: "rat option \<Rightarrow> rat" where
  "extentOrDefault ext = (case ext of None \<Rightarrow> 4096 | Some e \<Rightarrow> e)"

subsection \<open>The level list and the sample grid\<close>

text \<open>
  \<open>levels.split(",").map((s) => Number(s.trim())).filter((n) => !isNaN(n))\<close> for a string,
  the array itself otherwise.
\<close>

definition levelArrayOf :: "(string \<Rightarrow> 'n option) \<Rightarrow> 'n levels_arg \<Rightarrow> 'n list" where
  "levelArrayOf Number levels =
     (case levels of
        LevelString s \<Rightarrow>
          map the (filter (\<lambda>n. n \<noteq> None) (map (\<lambda>s. Number (trim s)) (splitOn CHR '','' s)))
      | LevelArray a \<Rightarrow> a)"

definition heightData :: "'h HeightTile \<Rightarrow> 'h list list" where
  "heightData tile =
     map (\<lambda>y. map (\<lambda>x. get tile x y) [0 .. width tile - 1]) [0 .. height tile - 1]"

subsection \<open>generateIsolinesMS\<close>

text \<open>
  One turn of \<open>for (const level of sortedLevels)\<close>. The \<open>try\<close> block covers the library call
  and the conversion: a throw leaves \<open>result\<close> as it is. \<open>result[level] = geometries\<close>
  assigns the property named \<open>String level\<close>.
\<close>

definition isolineStep ::
  "('n \<Rightarrow> string) \<Rightarrow> ('h list list \<Rightarrow> 'n list \<Rightarrow> ms_options \<Rightarrow> ms_error + ring list list)
   \<Rightarrow> 'h list list \<Rightarrow> int \<Rightarrow> rat
   \<Rightarrow> (string \<times> outcoord list list) list \<Rightarrow> 'n \<Rightarrow> (string \<times> outcoord list list) list" where
  "isolineStep String isoLines data w ext result level =
     (case isoLines data [level] \<lparr> linearRing = False, noFrame = True \<rparr> of
        Inl err \<Rightarrow> result
      | Inr linesResult \<Rightarrow>
          (let geometries =
                 (if length linesResult > 0
                  then filter (\<lambda>geometry. length geometry \<ge> 4)
                         (map (flatten ext w) (hd linesResult))
                  else [])
           in if length geometries > 0
              then AList.update (String level) geometries result
              else result))"

definition generateIsolinesMS ::
  "(string \<Rightarrow> 'n option) \<Rightarrow> ('n \<Rightarrow> string)
   \<Rightarrow> ('h list list \<Rightarrow> 'n list \<Rightarrow> ms_options \<Rightarrow> ms_error + ring list list)
   \<Rightarrow> ('n::linorder) levels_arg \<Rightarrow> 'h HeightTile \<Rightarrow> rat option
   \<Rightarrow> (string \<times> outcoord list list) list" where
  "generateIsolinesMS Number String isoLines levels tile ext =
     (let levelArray = levelArrayOf Number levels
      in if length levelArray = 0 then []
         else
           (let sortedLevels = sort levelArray;
                data = heightData tile
            in foldl (isolineStep String isoLines data (width tile) (extentOrDefault ext))
                 [] sortedLevels))"

subsection \<open>generateIsobands\<close>

definition rangeKey :: "('n \<Rightarrow> string) \<Rightarrow> 'n \<Rightarrow> 'n \<Rightarrow> string" where
  "rangeKey String lowerLevel upperLevel = String lowerLevel @ '':'' @ String upperLevel"

text \<open>One turn of \<open>for (let i = 0; i < sortedLevels.length - 1; i++)\<close>.\<close>

definition isobandStep ::
  "('n \<Rightarrow> string)
   \<Rightarrow> ('h list list \<Rightarrow> 'n list \<Rightarrow> 'n list \<Rightarrow> ms_options \<Rightarrow> ms_error + ring list list)
   \<Rightarrow> 'h list list \<Rightarrow> int \<Rightarrow> rat \<Rightarrow> ('n::{linorder,minus}) list
   \<Rightarrow> (string \<times> outcoord list list) list \<Rightarrow> nat \<Rightarrow> (string \<times> outcoord list list) list" where
  "isobandStep String isoBands data w ext sortedLevels result i =
     (let lowerLevel = sortedLevels ! i;
          upperLevel = sortedLevels ! (i + 1)
      in case isoBands data [lowerLevel] [upperLevel - lowerLevel]
                \<lparr> linearRing = True, noFrame = True \<rparr> of
           Inl err \<Rightarrow> result
         | Inr bands \<Rightarrow>
             (let polygons =
                    (if length bands > 0 \<and> length (hd bands) > 0
                     then filter (\<lambda>polygon. length polygon \<ge> 6)
                            (map (flatten ext w) (hd bands))
                     else [])
              in if length polygons > 0
                 then AList.update (rangeKey String lowerLevel upperLevel) polygons result
                 else result))"

definition generateIsobands ::
  "(string \<Rightarrow> 'n option) \<Rightarrow> ('n \<Rightarrow> string)
   \<Rightarrow> ('h list list \<Rightarrow> 'n list \<Rightarrow> 'n list \<Rightarrow> ms_options \<Rightarrow> ms_error + ring list list)
   \<Rightarrow> ('n::{linorder,minus}) levels_arg \<Rightarrow> 'h HeightTile \<Rightarrow> rat option
   \<Rightarrow> (string \<times> outcoord list list) list" where
  "generateIsobands Number String isoBands levels tile ext =
     (let levelArray = levelArrayOf Number levels
      in if length levelArray = 0 then []
         else
           (let sortedLevels = sort levelArray;
                data = heightData tile
            in foldl (isobandStep String isoBands data (width tile) (extentOrDefault ext)
                        sortedLevels)
                 [] [0 ..< length sortedLevels - 1]))"

subsection \<open>Loop invariants\<close>

lemma foldl_invariant:
  "P init \<Longrightarrow> (\<And>r x. P r \<Longrightarrow> x \<in> set xs \<Longrightarrow> P (step r x)) \<Longrightarrow> P (foldl step init xs)"
  by (induction xs arbitrary: init) auto

lemma foldl_length_le:
  "(\<And>r x. length (step r x) \<le> Suc (length r)) \<Longrightarrow>
   length (foldl step init xs) \<le> length init + length xs"
proof (induction xs arbitrary: init)
  case Nil
  show ?case by simp
next
  case (Cons x xs)
  have "length (foldl step (step init x) xs) \<le> length (step init x) + length xs"
    by (rule Cons.IH) (rule Cons.prems)
  also have "\<dots> \<le> Suc (length init) + length xs"
    using Cons.prems [of init x] by simp
  finally show ?case by simp
qed

lemma set_update_cases:
  "e \<in> set (AList.update k v al) \<Longrightarrow> e = (k, v) \<or> e \<in> set al"
  by (induction al) (auto split: if_splits)

lemma length_update_le: "length (AList.update k v al) \<le> Suc (length al)"
  by (induction al) auto

lemma length_flatten: "length (flatten ext w path) = 2 * length path"
  by (induction path) (auto simp: flatten_def)

text \<open>
  Every entry of a result holds a non-empty list of geometries, each of at least \<open>n\<close>
  coordinates, two for every point.
\<close>

definition geometriesOK :: "nat \<Rightarrow> (string \<times> outcoord list list) list \<Rightarrow> bool" where
  "geometriesOK n result =
     (\<forall>(key, geometries) \<in> set result.
        geometries \<noteq> [] \<and> (\<forall>g \<in> set geometries. n \<le> length g \<and> even (length g)))"

lemma geometriesOK_Nil: "geometriesOK n []"
  by (simp add: geometriesOK_def)

lemma geometriesOK_update:
  "geometriesOK n result \<Longrightarrow> gs \<noteq> [] \<Longrightarrow> \<forall>g\<in>set gs. n \<le> length g \<and> even (length g) \<Longrightarrow>
   geometriesOK n (AList.update k gs result)"
  unfolding geometriesOK_def by (auto dest!: set_update_cases)

lemma isolineStep_OK:
  "geometriesOK 4 result \<Longrightarrow> geometriesOK 4 (isolineStep String isoLines data w ext result level)"
  unfolding isolineStep_def
  by (auto simp: Let_def length_flatten split: sum.splits intro!: geometriesOK_update)

lemma isobandStep_OK:
  "geometriesOK 6 result \<Longrightarrow>
   geometriesOK 6 (isobandStep String isoBands data w ext sortedLevels result i)"
  unfolding isobandStep_def
  by (auto simp: Let_def length_flatten split: sum.splits intro!: geometriesOK_update)

lemma generateIsolinesMS_OK:
  "geometriesOK 4 (generateIsolinesMS Number String isoLines levels tile ext)"
proof -
  have "geometriesOK 4 (foldl (isolineStep String isoLines data w e) [] xs)" for data w e xs
    by (rule foldl_invariant [where P = "geometriesOK 4"])
       (simp_all add: geometriesOK_Nil isolineStep_OK)
  then show ?thesis
    by (simp add: generateIsolinesMS_def Let_def geometriesOK_Nil)
qed

lemma generateIsobands_OK:
  "geometriesOK 6 (generateIsobands Number String isoBands levels tile ext)"
proof -
  have "geometriesOK 6 (foldl (isobandStep String isoBands data w e sl) [] xs)" for data w e sl xs
    by (rule foldl_invariant [where P = "geometriesOK 6"])
       (simp_all add: geometriesOK_Nil isobandStep_OK)
  then show ?thesis
    by (simp add: generateIsobands_def Let_def geometriesOK_Nil)
qed

text \<open>The range keys that the adjacent pairs of a level list can give.\<close>

definition bandKeys :: "('n \<Rightarrow> string) \<Rightarrow> 'n list \<Rightarrow> string set" where
  "bandKeys String sortedLevels =
     {rangeKey String (sortedLevels ! i) (sortedLevels ! (i + 1)) | i. i + 1 < length sortedLevels}"

lemma isobandStep_keys:
  assumes "fst ` set result \<subseteq> bandKeys String sortedLevels" "i + 1 < length sortedLevels"
  shows "fst ` set (isobandStep String isoBands data w ext sortedLevels result i)
           \<subseteq> bandKeys String sortedLevels"
proof -
  have "rangeKey String (sortedLevels ! i) (sortedLevels ! (i + 1)) \<in> bandKeys String sortedLevels"
    using assms(2) unfolding bandKeys_def by blast
  then show ?thesis
    using assms(1) unfolding isobandStep_def
    by (auto simp: Let_def dom_update split: sum.splits)
qed

lemma isobandStep_distinct:
  "distinct (map fst result) \<Longrightarrow>
   distinct (map fst (isobandStep String isoBands data w ext sortedLevels result i))"
  unfolding isobandStep_def
  by (auto simp: Let_def distinct_update split: sum.splits)

lemma isobandStep_length:
  "length (isobandStep String isoBands data w ext sortedLevels result i) \<le> Suc (length result)"
  unfolding isobandStep_def
  by (auto simp: Let_def length_update_le split: sum.splits)

lemma isoband_fold_keys:
  "fst ` set (foldl (isobandStep String isoBands data w ext sortedLevels) []
                 [0 ..< length sortedLevels - 1]) \<subseteq> bandKeys String sortedLevels"
proof (rule foldl_invariant [where P = "\<lambda>r. fst ` set r \<subseteq> bandKeys String sortedLevels"])
  show "fst ` set [] \<subseteq> bandKeys String sortedLevels" by simp
next
  fix r :: "(string \<times> outcoord list list) list" and i
  assume r: "fst ` set r \<subseteq> bandKeys String sortedLevels"
    and i: "i \<in> set [0 ..< length sortedLevels - 1]"
  from i have "i + 1 < length sortedLevels" by simp
  with r show "fst ` set (isobandStep String isoBands data w ext sortedLevels r i)
                 \<subseteq> bandKeys String sortedLevels"
    by (rule isobandStep_keys)
qed

lemma isoband_fold_distinct:
  "distinct (map fst (foldl (isobandStep String isoBands data w ext sortedLevels) [] is))"
  by (rule foldl_invariant [where P = "\<lambda>r. distinct (map fst r)"])
     (simp_all add: isobandStep_distinct)

lemma isoband_fold_length:
  "length (foldl (isobandStep String isoBands data w ext sortedLevels) []
             [0 ..< length sortedLevels - 1]) \<le> length sortedLevels - 1"
  using foldl_length_le [of "isobandStep String isoBands data w ext sortedLevels" "[]"
          "[0 ..< length sortedLevels - 1]"]
  by (simp add: isobandStep_length)

lemma mset_eq_sort_eq:
  fixes xs ys :: "'a::linorder list"
  shows "mset xs = mset ys \<Longrightarrow> sort xs = sort ys"
  by (metis mset_sort properties_for_sort sorted_sort)


subsection \<open>Example inputs\<close>

text \<open>
  A 3 by 3 tile, a stand-in for \<open>isoLines\<close> that throws at level 1000 and otherwise returns
  a line of two points and a degenerate one of a single point, and a stand-in for \<open>isoBands\<close>
  that returns a closed ring of four points and a degenerate one of two.
\<close>

definition exampleTile :: "rat HeightTile" where
  "exampleTile = \<lparr> width = 3, height = 3, get = (\<lambda>x y. of_int (x + y)) \<rparr>"

definition exampleIsoLines ::
  "rat list list \<Rightarrow> int list \<Rightarrow> ms_options \<Rightarrow> ms_error + ring list list" where
  "exampleIsoLines data levels options =
     (if levels = [1000] then Inl MSError else Inr [[[(0, 1), (2, 1)], [(1, 1)]]])"

definition exampleIsoBands ::
  "rat list list \<Rightarrow> int list \<Rightarrow> int list \<Rightarrow> ms_options \<Rightarrow> ms_error + ring list list" where
  "exampleIsoBands data lowers bandwidths options =
     Inr [[[(0, 0), (2, 0), (0, 2), (0, 0)], [(1, 1), (1, 1)]]]"

text \<open>\<open>Number\<close> restricted to the integer model, for the examples.\<close>

definition integerOrNaN :: "string \<Rightarrow> int option" where
  "integerOrNaN s = (case stringToNumber s of Some (Num n) \<Rightarrow> Some n | _ \<Rightarrow> None)"

subsection \<open>Claims about the contouring functions\<close>

text \<open>
  Claim C4. Whatever the library returns, every key of the mapping returned by
  \<open>generateIsobands\<close> is \<open>String lower @ '':'' @ String upper\<close> for an adjacent pair
  \<open>lower \<le> upper\<close> of the ascending-sorted levels; the keys are distinct and a list of N
  levels gives at most N - 1 of them, so that a list of at most one level gives the empty
  mapping.
\<close>

theorem generateIsobands_range_keys:
  fixes levels :: "('n::{linorder,minus}) levels_arg"
  shows
    "(\<forall>key \<in> fst ` set (generateIsobands Number String isoBands levels tile ext).
        \<exists>i. i + 1 < length (sort (levelArrayOf Number levels))
          \<and> sort (levelArrayOf Number levels) ! i \<le> sort (levelArrayOf Number levels) ! (i + 1)
          \<and> key = String (sort (levelArrayOf Number levels) ! i) @ '':'' @
                  String (sort (levelArrayOf Number levels) ! (i + 1)))
     \<and> distinct (map fst (generateIsobands Number String isoBands levels tile ext))
     \<and> length (generateIsobands Number String isoBands levels tile ext)
           \<le> length (levelArrayOf Number levels) - 1
     \<and> (length (levelArrayOf Number levels) \<le> 1 \<longrightarrow>
           generateIsobands Number String isoBands levels tile ext = [])"
proof -
  let ?levelArray = "levelArrayOf Number levels"
  let ?sorted = "sort ?levelArray"
  let ?result = "generateIsobands Number String isoBands levels tile ext"
  have keys: "fst ` set ?result \<subseteq> bandKeys String ?sorted"
    using isoband_fold_keys [of String isoBands _ _ _ ?sorted]
    by (simp add: generateIsobands_def Let_def)
  have adjacent: "\<exists>i. i + 1 < length ?sorted \<and> ?sorted ! i \<le> ?sorted ! (i + 1)
        \<and> key = String (?sorted ! i) @ '':'' @ String (?sorted ! (i + 1))"
    if "key \<in> fst ` set ?result" for key
  proof -
    from that keys have "key \<in> bandKeys String ?sorted" by blast
    then obtain i where i: "i + 1 < length ?sorted"
      and key: "key = rangeKey String (?sorted ! i) (?sorted ! (i + 1))"
      unfolding bandKeys_def by blast
    have "?sorted ! i \<le> ?sorted ! (i + 1)"
      using i by (intro sorted_nth_mono) simp_all
    with i key show ?thesis by (auto simp: rangeKey_def)
  qed
  have dist: "distinct (map fst ?result)"
    by (simp add: generateIsobands_def Let_def isoband_fold_distinct)
  have len: "length ?result \<le> length ?levelArray - 1"
    using isoband_fold_length [of String isoBands _ _ _ ?sorted]
    by (simp add: generateIsobands_def Let_def)
  have "?result = []" if "length ?levelArray \<le> 1"
    using len that by simp
  with adjacent dist len show ?thesis by blast
qed

theorem generateIsobands_range_keys_witness:
  "map fst (generateIsobands integerOrNaN numberToString exampleIsoBands
              (LevelArray [0, -100, -50, -75]) exampleTile None)
     = [''-100:-75'', ''-75:-50'', ''-50:0'']
   \<and> length (levelArrayOf integerOrNaN (LevelArray [500])) \<le> 1
   \<and> generateIsobands integerOrNaN numberToString exampleIsoBands
         (LevelArray [500]) exampleTile None = []"
proof -
  have keys: "map fst (generateIsobands integerOrNaN numberToString exampleIsoBands
              (LevelArray [0, -100, -50, -75]) exampleTile None)
     = [''-100:-75'', ''-75:-50'', ''-50:0'']"
    by code_simp
  have one: "length (levelArrayOf integerOrNaN (LevelArray [500::int])) \<le> 1"
    by (simp add: levelArrayOf_def)
  from generateIsobands_range_keys
         [of integerOrNaN numberToString exampleIsoBands "LevelArray [500]" exampleTile None]
       one keys
  show ?thesis by blast
qed

text \<open>
  Claim C6. For every tile, extent and library behaviour, two level arrays that are
  permutations of each other (equal as multisets) give the same result of
  \<open>generateIsolinesMS\<close>.
\<close>

theorem generateIsolinesMS_permutation:
  fixes xs ys :: "('n::linorder) list"
  assumes "mset xs = mset ys"
  shows "generateIsolinesMS Number String isoLines (LevelArray xs) tile ext
         = generateIsolinesMS Number String isoLines (LevelArray ys) tile ext"
proof -
  have "sort xs = sort ys"
    using assms by (rule mset_eq_sort_eq)
  moreover have "xs = [] \<longleftrightarrow> ys = []"
    using assms by (metis mset_zero_iff)
  ultimately show ?thesis
    by (simp add: generateIsolinesMS_def levelArrayOf_def)
qed

theorem generateIsolinesMS_permutation_witness:
  "mset [700, 1000, 500 :: int] = mset [500, 700, 1000]
   \<and> generateIsolinesMS integerOrNaN numberToString exampleIsoLines
         (LevelArray [700, 1000, 500]) exampleTile None
       = generateIsolinesMS integerOrNaN numberToString exampleIsoLines
           (LevelArray [500, 700, 1000]) exampleTile None
   \<and> generateIsolinesMS integerOrNaN numberToString exampleIsoLines
         (LevelArray [500, 700, 1000]) exampleTile None
       = [(''500'', [[Px 0, Px 2048, Px 4096, Px 2048]]),
          (''700'', [[Px 0, Px 2048, Px 4096, Px 2048]])]"
proof -
  have perm: "mset [700, 1000, 500 :: int] = mset [500, 700, 1000]"
    by simp
  have val: "generateIsolinesMS integerOrNaN numberToString exampleIsoLines
         (LevelArray [500, 700, 1000]) exampleTile None
       = [(''500'', [[Px 0, Px 2048, Px 4096, Px 2048]]),
          (''700'', [[Px 0, Px 2048, Px 4096, Px 2048]])]"
    by code_simp
  from generateIsolinesMS_permutation [OF perm] perm val show ?thesis by blast
qed

text \<open>
  Claim C7. Whatever the library returns, every entry of the mapping returned by
  \<open>generateIsolinesMS\<close> holds a non-empty list of polylines of at least 4 flat coordinates
  each, and every entry of the mapping returned by \<open>generateIsobands\<close> holds a non-empty list
  of rings of at least 6 flat coordinates each, two coordinates to a point: a level or range
  with no surviving geometry has no entry.
\<close>

theorem generated_geometries_survive:
  "(\<forall>(level, geometries) \<in> set (generateIsolinesMS Number String isoLines levels tile ext).
      geometries \<noteq> [] \<and> (\<forall>g \<in> set geometries. 4 \<le> length g \<and> even (length g)))
   \<and> (\<forall>(range, polygons) \<in> set (generateIsobands Number' String' isoBands levels' tile' ext').
      polygons \<noteq> [] \<and> (\<forall>p \<in> set polygons. 6 \<le> length p \<and> even (length p)))"
  using generateIsolinesMS_OK [of Number String isoLines levels tile ext]
        generateIsobands_OK [of Number' String' isoBands levels' tile' ext']
  unfolding geometriesOK_def by blast

theorem generated_geometries_survive_witness:
  "generateIsolinesMS integerOrNaN numberToString exampleIsoLines
      (LevelArray [700, 1000, 500]) exampleTile None
     = [(''500'', [[Px 0, Px 2048, Px 4096, Px 2048]]),
        (''700'', [[Px 0, Px 2048, Px 4096, Px 2048]])]
   \<and> generateIsobands integerOrNaN numberToString exampleIsoBands
       (LevelArray [0, -50]) exampleTile None
     = [(''-50:0'', [[Px 0, Px 0, Px 4096, Px 0, Px 0, Px 4096, Px 0, Px 0]])]
   \<and> 4 \<le> length [Px 0, Px 2048, Px 4096, Px 2048]
   \<and> 6 \<le> length [Px 0, Px 0, Px 4096, Px 0, Px 0, Px 4096, Px 0, Px 0]"
proof -
  have lines: "generateIsolinesMS integerOrNaN numberToString exampleIsoLines
      (LevelArray [700, 1000, 500]) exampleTile None
     = [(''500'', [[Px 0, Px 2048, Px 4096, Px 2048]]),
        (''700'', [[Px 0, Px 2048, Px 4096, Px 2048]])]"
    by code_simp
  have bands: "generateIsobands integerOrNaN numberToString exampleIsoBands
       (LevelArray [0, -50]) exampleTile None
     = [(''-50:0'', [[Px 0, Px 0, Px 4096, Px 0, Px 0, Px 4096, Px 0, Px 0]])]"
    by code_simp
  from generated_geometries_survive
         [of integerOrNaN numberToString exampleIsoLines "LevelArray [700, 1000, 500]"
             exampleTile None integerOrNaN numberToString exampleIsoBands
             "LevelArray [0, -50]" exampleTile None]
  show ?thesis
    unfolding lines bands by simp
qed



section \<open>Jittered grid of spot soundings (utils.ts)\<close>

text \<open>
  Bounds, spacing and points are doubles, given by their rational values, and every
  arithmetic operation of the source is followed by \<open>roundToDouble\<close>. Tile coordinates are
  integers, and the seed \<open>tileZ * 1000000 + tileX * 1000 + tileY\<close> is computed exactly, as
  doubles do while the products and sums stay below \<open>2^53\<close> in magnitude. The generator's
  state is an integer: products and sums of integral doubles round to integral doubles.
\<close>

text \<open>JavaScript's \<open>%\<close> on integers: the remainder takes the sign of the dividend.\<close>

definition jsRemainder :: "int \<Rightarrow> int \<Rightarrow> int" where
  "jsRemainder a b = sgn a * (\<bar>a\<bar> mod \<bar>b\<bar>)"

text \<open>
  \<open>seededRandom(seed)\<close> returns a closure over its own \<open>state\<close>, which starts as the seed.
  A call of the closure (\<open>random\<close>) updates the state and returns it divided by \<open>2^32\<close>.
\<close>

definition seededRandom :: "int \<Rightarrow> int" where
  "seededRandom seed = seed"

definition random :: "int \<Rightarrow> rat \<times> int" where
  "random state =
     (let state' = jsRemainder
            \<lfloor>roundToDouble (roundToDouble (of_int state * 1664525) + 1013904223)\<rfloor> 4294967296
      in (roundToDouble (of_int state' / 4294967296), state'))"

text \<open>
  The body of the inner loop, for column \<open>i\<close> and row \<open>j\<close>: two draws, then the point is
  pushed when it lies below both upper bounds.
\<close>

definition gridCell ::
  "rat \<Rightarrow> rat \<Rightarrow> rat \<Rightarrow> rat \<Rightarrow> rat \<Rightarrow> int \<Rightarrow> int \<times> (rat \<times> rat) list \<Rightarrow> int
   \<Rightarrow> int \<times> (rat \<times> rat) list" where
  "gridCell minx miny maxx maxy spacing i st j =
     (let (r1, s1) = random (fst st);
          dx = roundToDouble (roundToDouble (r1 * spacing) / 2);
          (r2, s2) = random s1;
          dy = roundToDouble (roundToDouble (r2 * spacing) / 2);
          x = roundToDouble
                (roundToDouble (roundToDouble (minx + roundToDouble (of_int i * spacing)) + dx)
                 + roundToDouble (spacing / 4));
          y = roundToDouble
                (roundToDouble (roundToDouble (miny + roundToDouble (of_int j * spacing)) + dy)
                 + roundToDouble (spacing / 4))
      in (s2, if x < maxx \<and> y < maxy then snd st @ [(x, y)] else snd st))"

definition gridColumn ::
  "rat \<Rightarrow> rat \<Rightarrow> rat \<Rightarrow> rat \<Rightarrow> rat \<Rightarrow> int \<Rightarrow> int \<times> (rat \<times> rat) list \<Rightarrow> int
   \<Rightarrow> int \<times> (rat \<times> rat) list" where
  "gridColumn minx miny maxx maxy spacing ny st i =
     foldl (gridCell minx miny maxx maxy spacing i) st [0 .. ny]"

text \<open>\<open>Math.floor((hi - lo) / spacing)\<close>, the last index of a loop.\<close>

definition gridCount :: "rat \<Rightarrow> rat \<Rightarrow> rat \<Rightarrow> int" where
  "gridCount lo hi spacing = \<lfloor>roundToDouble (roundToDouble (hi - lo) / spacing)\<rfloor>"

text \<open>
  What a call does: it returns the points, it does not return, or it is outside the model.
  The model covers bounds and spacing that are doubles of magnitude at most \<open>2^500\<close>, the
  spacing zero or at least \<open>2^-500\<close>, where no operation overflows. For \<open>spacing = 0\<close> and
  equal bounds the quotient is \<open>NaN\<close> and the loop is not entered; for different bounds it
  is \<open>Infinity\<close> or \<open>-Infinity\<close> by the sign of the zero, which the model does not have. A
  loop whose last index is \<open>2^53\<close> or more never ends, since \<open>i++\<close> stays at \<open>2^53\<close>.
\<close>

datatype 'a run = Returns 'a | Diverges | Unmodelled

definition modelled :: "rat \<Rightarrow> rat \<Rightarrow> rat \<Rightarrow> rat \<Rightarrow> rat \<Rightarrow> bool" where
  "modelled minx miny maxx maxy spacing =
     (list_all (\<lambda>q. isDouble q \<and> \<bar>q\<bar> \<le> 2 ^ 500) [minx, miny, maxx, maxy, spacing]
      \<and> (spacing = 0 \<or> 1 / 2 ^ 500 \<le> \<bar>spacing\<bar>))"

definition generateJitteredGrid ::
  "rat \<Rightarrow> rat \<Rightarrow> rat \<Rightarrow> rat \<Rightarrow> rat \<Rightarrow> int \<Rightarrow> int \<Rightarrow> int \<Rightarrow> (rat \<times> rat) list run" where
  "generateJitteredGrid minx miny maxx maxy spacing tileX tileY tileZ =
     (if \<not> modelled minx miny maxx maxy spacing then Unmodelled
      else if spacing = 0 then (if maxx = minx then Returns [] else Unmodelled)
      else
        (let nx = gridCount minx maxx spacing;
             ny = gridCount miny maxy spacing;
             seed = tileZ * 1000000 + tileX * 1000 + tileY
         in if 2 ^ 53 \<le> nx \<or> (0 \<le> nx \<and> 2 ^ 53 \<le> ny) then Diverges
            else Returns (snd (foldl (gridColumn minx miny maxx maxy spacing ny)
                                 (seededRandom seed, []) [0 .. nx]))))"

subsection \<open>The points lie within the bounds\<close>











subsection \<open>An example call\<close>

lemma exact_values:
  "roundToDouble 1664525000 = 1664525000"
  "roundToDouble 2678429223 = 2678429223"
  "roundToDouble 4458312402414075 = 4458312402414075"
  "roundToDouble 4458313416318298 = 4458313416318298"
  "roundToDouble (2678429223 / 4294967296) = 2678429223 / 4294967296"
  "roundToDouble (2109542061 / 2147483648) = 2109542061 / 2147483648"
  "roundToDouble (2678429223 / 2147483648) = 2678429223 / 2147483648"
  "roundToDouble (2109542061 / 1073741824) = 2109542061 / 1073741824"
  "roundToDouble (4825912871 / 4294967296) = 4825912871 / 4294967296"
  "roundToDouble (3183283885 / 2147483648) = 3183283885 / 2147483648"
  "roundToDouble (3 / 2) = 3 / 2"
  "roundToDouble (3 / 4) = 3 / 4"
  "roundToDouble (1 / 2) = 1 / 2"
  "roundToDouble 2 = 2"
  using roundToDouble_int [of 1664525000] roundToDouble_int [of 2678429223]
    roundToDouble_int [of 4458312402414075] roundToDouble_int [of 4458313416318298]
    roundToDouble_dyadic [of 2678429223 32] roundToDouble_dyadic [of 2109542061 31]
    roundToDouble_dyadic [of 2678429223 31] roundToDouble_dyadic [of 2109542061 30]
    roundToDouble_dyadic [of 4825912871 32] roundToDouble_dyadic [of 3183283885 31]
    roundToDouble_dyadic [of 3 1] roundToDouble_dyadic [of 3 2] roundToDouble_dyadic [of 1 1]
    roundToDouble_int [of 2]
  by simp_all

lemma random_1000: "random 1000 = (2678429223 / 4294967296, 2678429223)"
  by (simp add: random_def jsRemainder_def exact_values)

lemma random_2678429223: "random 2678429223 = (2109542061 / 2147483648, 4219084122)"
  by (simp add: random_def jsRemainder_def exact_values)


lemma floor_three_quarters: "\<lfloor>3 / (4::rat)\<rfloor> = 0"
  by (rule floor_unique) simp_all

lemma modelled_example: "modelled 0 0 (3 / 2) (3 / 2) 2"
  by (simp add: modelled_def isDouble_def exact_values roundToDouble_zero)

lemma example_grid:
  "generateJitteredGrid 0 0 (3 / 2) (3 / 2) 2 1 0 0
     = Returns [(4825912871 / 4294967296, 3183283885 / 2147483648)]"
  by (simp add: generateJitteredGrid_def modelled_example gridCount_def floor_three_quarters
        gridColumn_def gridCell_def seededRandom_def random_1000 random_2678429223
        exact_values roundToDouble_zero)

subsection \<open>A call with bounds far above the spacing\<close>








subsection \<open>Claims about generateJitteredGrid\<close>




text \<open>
  Claim C5. The result of \<open>generateJitteredGrid\<close> is a function of the bounds, the spacing
  and the seed \<open>tileZ * 1000000 + tileX * 1000 + tileY\<close> alone: calls that agree on these
  (in particular two calls with identical arguments) return the same points in the same
  order, and both fail to return in the same cases. The generator's state is created from
  the seed inside each call and nothing of it survives the call.
\<close>

theorem generateJitteredGrid_seed:
  assumes "tileZ * 1000000 + tileX * 1000 + tileY = tileZ' * 1000000 + tileX' * 1000 + tileY'"
  shows "generateJitteredGrid minx miny maxx maxy spacing tileX tileY tileZ
         = generateJitteredGrid minx miny maxx maxy spacing tileX' tileY' tileZ'"
  using assms by (simp add: generateJitteredGrid_def)

theorem generateJitteredGrid_seed_witness:
  "(0::int) * 1000000 + 1 * 1000 + 0 = 0 * 1000000 + 0 * 1000 + 1000
   \<and> generateJitteredGrid 0 0 (3 / 2) (3 / 2) 2 1 0 0
       = generateJitteredGrid 0 0 (3 / 2) (3 / 2) 2 0 1000 0
   \<and> generateJitteredGrid 0 0 (3 / 2) (3 / 2) 2 0 1000 0
       = Returns [(4825912871 / 4294967296, 3183283885 / 2147483648)]"
proof -
  have seed: "(0::int) * 1000000 + 1 * 1000 + 0 = 0 * 1000000 + 0 * 1000 + 1000" by simp
  from generateJitteredGrid_seed
         [OF seed, where minx = 0 and miny = 0 and maxx = "3 / 2" and maxy = "3 / 2" and spacing = 2] seed example_grid
  show ?thesis by simp
qed

section \<open>Timeout and cancellation of a pending promise (utils.ts, withTimeout)\<close>

text \<open>
  One call of \<open>withTimeout\<close> is modelled by the state of the objects it creates and by what
  can reach them afterwards. The delay \<open>timeoutMs\<close> is not modelled: the expiry of the timer
  is an event. Time is a sequence of turns of the event loop. In a turn, code runs and may
  call \<open>abort()\<close> on the controller or settle \<open>value\<close>; the promise reactions that this has
  queued run before the next turn begins, and no timer callback runs in between.
\<close>

datatype rejection = Error string

datatype 'a outcome = Fulfilled 'a | Rejected rejection

datatype timer = Armed | Cleared | Fired

text \<open>
  \<open>signalAborted\<close> is \<open>None\<close> when no \<open>abortController\<close> is passed, and else holds
  \<open>abortController.signal.aborted\<close>. A promise is \<open>None\<close> while pending. \<open>raced\<close> is the
  promise that \<open>Promise.race\<close> returns.
\<close>

record 'a timeout_call =
  signalAborted :: "bool option"
  timeout :: timer
  cancelPromise :: "rejection option"
  valuePromise :: "'a outcome option"
  raced :: "'a outcome option"

text \<open>\<open>reject(error)\<close>, the \<open>rej\<close> of \<open>cancelPromise\<close>: without effect on a settled promise.\<close>

definition reject :: "rejection \<Rightarrow> 'a timeout_call \<Rightarrow> 'a timeout_call" where
  "reject error st =
     (if cancelPromise st = None then st \<lparr> cancelPromise := Some error \<rparr> else st)"

definition clearTimeout :: "'a timeout_call \<Rightarrow> 'a timeout_call" where
  "clearTimeout st = (if timeout st = Armed then st \<lparr> timeout := Cleared \<rparr> else st)"

text \<open>The action that \<open>onAbort\<close> registers as listener of the signal's \<open>abort\<close> event.\<close>

definition abortAction :: "'a timeout_call \<Rightarrow> 'a timeout_call" where
  "abortAction st = clearTimeout (reject (Error ''aborted'') st)"

text \<open>
  \<open>abortController?.abort()\<close>: nothing without a controller, nothing on a signal that is
  already aborted (so a listener added to an aborted signal never runs); otherwise the
  signal becomes aborted and the listener runs, at once.
\<close>

definition abort :: "'a timeout_call \<Rightarrow> 'a timeout_call" where
  "abort st =
     (case signalAborted st of
        None \<Rightarrow> st
      | Some True \<Rightarrow> st
      | Some False \<Rightarrow> abortAction (st \<lparr> signalAborted := Some True \<rparr>))"

text \<open>The callback given to \<open>setTimeout\<close>.\<close>

definition timeoutCallback :: "'a timeout_call \<Rightarrow> 'a timeout_call" where
  "timeoutCallback st = abort (reject (Error ''timed out'') st)"

text \<open>\<open>value\<close> settles, if it is pending: nothing else happens before the reactions run.\<close>

definition valueSettles :: "'a outcome \<Rightarrow> 'a timeout_call \<Rightarrow> 'a timeout_call" where
  "valueSettles result st =
     (if valuePromise st = None then st \<lparr> valuePromise := Some result \<rparr> else st)"

text \<open>
  The promise reactions at the end of a turn. If \<open>value\<close> is settled, the callback of
  \<open>value.finally(() => clearTimeout(timeout))\<close> runs. The race, if still pending, settles as
  the first of its two inputs whose reaction runs: the reaction of \<open>cancelPromise\<close> is queued
  by \<open>reject\<close> itself, while the promise returned by \<open>finally\<close> settles only some reactions
  after \<open>value\<close> has, so that a \<open>cancelPromise\<close> rejected in the same turn comes first.
\<close>

definition reactions :: "'a timeout_call \<Rightarrow> 'a timeout_call" where
  "reactions st =
     (let cleared = (if valuePromise st = None then st else clearTimeout st)
      in cleared \<lparr> raced :=
           (case raced st of
              Some result \<Rightarrow> Some result
            | None \<Rightarrow> (case cancelPromise st of
                         Some error \<Rightarrow> Some (Rejected error)
                       | None \<Rightarrow> valuePromise st)) \<rparr>)"

text \<open>
  The state that \<open>withTimeout(timeoutMs, value, abortController)\<close> leaves behind, for the
  state of \<open>value\<close> and of the controller at the call.
\<close>

definition withTimeout :: "'a outcome option \<Rightarrow> bool option \<Rightarrow> 'a timeout_call" where
  "withTimeout val abortController =
     \<lparr> signalAborted = abortController, timeout = Armed, cancelPromise = None,
       valuePromise = val, raced = None \<rparr>"

datatype 'a action = AbortCalled | ValueSettles "'a outcome"

definition act :: "'a timeout_call \<Rightarrow> 'a action \<Rightarrow> 'a timeout_call" where
  "act st a = (case a of AbortCalled \<Rightarrow> abort st | ValueSettles result \<Rightarrow> valueSettles result st)"

text \<open>
  A turn is either some code running (\<open>Turn\<close>) or the timer expiring (\<open>TimerTurn\<close>, possible
  only while the timer is armed), in which the callback runs first. The first turn after
  \<open>withTimeout\<close> is the rest of the turn that called it.
\<close>

datatype 'a turn = Turn "'a action list" | TimerTurn "'a action list"

definition runTurn :: "'a timeout_call \<Rightarrow> 'a turn \<Rightarrow> 'a timeout_call" where
  "runTurn st t =
     (case t of
        Turn actions \<Rightarrow> reactions (foldl act st actions)
      | TimerTurn actions \<Rightarrow>
          (if timeout st = Armed
           then reactions (foldl act (timeoutCallback (st \<lparr> timeout := Fired \<rparr>)) actions)
           else st))"

definition after :: "'a turn list \<Rightarrow> 'a timeout_call \<Rightarrow> 'a timeout_call" where
  "after turns st = foldl runTurn st turns"


subsection \<open>What is settled stays settled, an aborted signal stays aborted\<close>



















subsection \<open>Aborting or timing out while the value is pending\<close>







text \<open>
  Settling \<open>value\<close> and then aborting within one turn still rejects with \<open>aborted\<close>; aborting
  a turn later does not.
\<close>

lemma resolve_then_abort:
  "raced (after [Turn [ValueSettles (Fulfilled (42::int)), AbortCalled]]
            (withTimeout None (Some False))) = Some (Rejected (Error ''aborted''))
   \<and> raced (after [Turn [ValueSettles (Fulfilled (42::int))], Turn [AbortCalled]]
            (withTimeout None (Some False))) = Some (Fulfilled 42)"
  by (simp add: after_def runTurn_def act_def valueSettles_def abort_def abortAction_def
        reject_def clearTimeout_def reactions_def withTimeout_def Let_def)



section \<open>Options as a string (utils.ts, encodeOptions and decodeOptions)\<close>

subsection \<open>JavaScript values and objects\<close>

text \<open>
  The values that occur in an options object and in what \<open>decodeOptions\<close> builds: a property
  of a zoom map holds a number or an array of numbers; a property of the options holds a
  number, a string, a zoom map, or \<open>undefined\<close>. An object is the map from its property names
  to their values, so that equality of objects is equality of their properties.
\<close>

datatype zvalue = ZNumber jsnum | ZArray "jsnum list"

datatype jsvalue = Undefined | JNumber jsnum | JString string | JObject "string \<Rightarrow> zvalue option"

text \<open>
  What stops a call: the two exceptions that can be thrown, and \<open>Unmodelled\<close>, which is not
  an exception: the source goes on with a value that the model does not represent (a
  number outside the integers, a character outside ASCII).
\<close>

datatype stop = URIError | TypeError | Unmodelled

text \<open>\<open>xs.map(f)\<close> for an \<open>f\<close> that may stop: the first stop is the outcome.\<close>

fun traverse :: "('a \<Rightarrow> stop + 'b) \<Rightarrow> 'a list \<Rightarrow> stop + 'b list" where
  "traverse f [] = Inr []"
| "traverse f (x # xs) =
     (case f x of
        Inl e \<Rightarrow> Inl e
      | Inr y \<Rightarrow> (case traverse f xs of Inl e \<Rightarrow> Inl e | Inr ys \<Rightarrow> Inr (y # ys)))"

text \<open>\<open>parts.join(sep)\<close> on strings.\<close>

fun join :: "string \<Rightarrow> string list \<Rightarrow> string" where
  "join sep [] = []"
| "join sep [p] = p"
| "join sep (p # q # ps) = p @ sep @ join sep (q # ps)"

text \<open>\<open>Object.fromEntries\<close>: a later entry replaces an earlier one of the same name.\<close>

definition fromEntries :: "(string \<times> 'v) list \<Rightarrow> (string \<Rightarrow> 'v option)" where
  "fromEntries entries = foldl (\<lambda>object (key, value). object(key \<mapsto> value)) Map.empty entries"

text \<open>
  \<open>sortedEntries\<close>: the entries sorted by property name; \<open><\<close> on strings is the
  lexicographic order of the character codes. The entries of a zoom map carry the decimal
  string of the zoom as name.
\<close>

definition sortedEntries :: "(string \<times> 'v) list \<Rightarrow> (string \<times> 'v) list" where
  "sortedEntries entries = sort_key fst entries"

definition zoomEntries :: "'v zoom_map \<Rightarrow> (string \<times> 'v) list" where
  "zoomEntries m = map (\<lambda>(zoom, value). (numberToString zoom, value)) m"

text \<open>\<open>String(value)\<close>, as the template literal and \<open>encodeURIComponent\<close> apply it.\<close>

definition valueToString :: "jsvalue \<Rightarrow> string" where
  "valueToString v =
     (case v of
        Undefined \<Rightarrow> ''undefined''
      | JNumber n \<Rightarrow> jsnumToString n
      | JString s \<Rightarrow> s
      | JObject object \<Rightarrow> ''[object Object]'')"

subsection \<open>encodeURIComponent and decodeURIComponent\<close>

text \<open>
  A string is its sequence of UTF-8 bytes. \<open>encodeURIComponent\<close> keeps the letters, the digits
  and \<open>- _ . ! ~ * ' ( )\<close> and writes every other byte as \<open>%\<close> and two upper-case hexadecimal
  digits. \<open>decodeURIComponent\<close> throws \<open>URIError\<close> at a \<open>%\<close> that two hexadecimal digits do
  not follow; an escaped byte of \<open>0x80\<close> or more is part of a multi-byte character and is not
  modelled.
\<close>

definition unreserved :: "char \<Rightarrow> bool" where
  "unreserved c =
     (c \<in> set ''ABCDEFGHIJKLMNOPQRSTUVWXYZabcdefghijklmnopqrstuvwxyz0123456789-_.!~*()''
      \<or> c = CHR 0x27)"

definition hexDigit :: "nat \<Rightarrow> char" where
  "hexDigit n = ''0123456789ABCDEF'' ! n"

definition encodeChar :: "char \<Rightarrow> string" where
  "encodeChar c =
     (if unreserved c then [c]
      else [CHR ''%'', hexDigit (of_char c div 16), hexDigit (of_char c mod 16)])"

definition encodeURIComponent :: "string \<Rightarrow> string" where
  "encodeURIComponent s = concat (map encodeChar s)"

definition hexValue :: "char \<Rightarrow> nat option" where
  "hexValue c =
     (if c \<in> set ''0123456789'' then Some (of_char c - 48)
      else if c \<in> set ''ABCDEF'' then Some (of_char c - 55)
      else if c \<in> set ''abcdef'' then Some (of_char c - 87)
      else None)"

fun decodeURIComponent :: "string \<Rightarrow> stop + string" where
  "decodeURIComponent [] = Inr []"
| "decodeURIComponent (c # cs) =
     (if c = CHR ''%'' then
        (case cs of
           h1 # h2 # remaining \<Rightarrow>
             (case (hexValue h1, hexValue h2) of
                (Some a, Some b) \<Rightarrow>
                  (if 16 * a + b < 128
                   then (case decodeURIComponent remaining of
                           Inl e \<Rightarrow> Inl e
                         | Inr s \<Rightarrow> Inr (char_of (16 * a + b) # s))
                   else Inl Unmodelled)
              | _ \<Rightarrow> Inl URIError)
         | _ \<Rightarrow> Inl URIError)
      else (case decodeURIComponent cs of Inl e \<Rightarrow> Inl e | Inr s \<Rightarrow> Inr (c # s)))"

subsection \<open>Zoom maps as strings\<close>

definition encodeThresholds :: "threshold_value zoom_map \<Rightarrow> string" where
  "encodeThresholds ts =
     join ''~''
       (map (\<lambda>(key, value). join ''*'' (key # map numberToString (thresholdList value)))
          (sortedEntries (zoomEntries ts)))"

definition encodeLevels :: "int list zoom_map \<Rightarrow> string" where
  "encodeLevels levels =
     join ''~''
       (map (\<lambda>(key, value). join ''*'' (key # map numberToString value))
          (sortedEntries (zoomEntries levels)))"

text \<open>\<open>Number\<close> on a string of the model, stopping at a number outside the integers.\<close>

definition toNumber :: "string \<Rightarrow> stop + jsnum" where
  "toNumber s = (case stringToNumber s of None \<Rightarrow> Inl Unmodelled | Some n \<Rightarrow> Inr n)"

text \<open>
  One \<open>~\<close> part: \<open>part.split("*").map(Number)\<close>, then \<open>[key, ...values] => [key, values]\<close>.
  As a property name the key is its string.
\<close>

definition decodeZoomPart :: "string \<Rightarrow> stop + string \<times> zvalue" where
  "decodeZoomPart part =
     (case traverse toNumber (splitOn CHR ''*'' part) of
        Inl e \<Rightarrow> Inl e
      | Inr numbers \<Rightarrow> Inr (jsnumToString (hd numbers), ZArray (tl numbers)))"

definition decodeThresholds :: "string \<Rightarrow> stop + (string \<Rightarrow> zvalue option)" where
  "decodeThresholds s =
     (case traverse decodeZoomPart (splitOn CHR ''~'' s) of
        Inl e \<Rightarrow> Inl e
      | Inr entries \<Rightarrow> Inr (fromEntries entries))"

definition decodeLevels :: "string \<Rightarrow> stop + (string \<Rightarrow> zvalue option)" where
  "decodeLevels s =
     (case traverse decodeZoomPart (splitOn CHR ''~'' s) of
        Inl e \<Rightarrow> Inl e
      | Inr entries \<Rightarrow> Inr (fromEntries entries))"

subsection \<open>encodeOptions\<close>

text \<open>The own properties of \<open>rest\<close>: one for every field that is set.\<close>

definition property :: "string \<Rightarrow> ('a \<Rightarrow> jsvalue) \<Rightarrow> 'a option \<Rightarrow> (string \<times> jsvalue) list" where
  "property name f v = (case v of None \<Rightarrow> [] | Some a \<Rightarrow> [(name, f a)])"

definition sortOrderString :: "sort_order \<Rightarrow> string" where
  "sortOrderString direction = (case direction of Asc \<Rightarrow> ''asc'' | Desc \<Rightarrow> ''desc'')"

definition restEntries :: "ContourTileOptions \<Rightarrow> (string \<times> jsvalue) list" where
  "restEntries r =
     property ''multiplier'' (\<lambda>n. JNumber (Num n)) (multiplier r)
     @ property ''overzoom'' (\<lambda>n. JNumber (Num n)) (overzoom r)
     @ property ''elevationKey'' JString (elevationKey r)
     @ property ''levelKey'' JString (levelKey r)
     @ property ''contourLayer'' JString (contourLayer r)
     @ property ''extent'' (\<lambda>n. JNumber (Num n)) (extent r)
     @ property ''buffer'' (\<lambda>n. JNumber (Num n)) (buffer r)
     @ property ''subsampleBelow'' (\<lambda>n. JNumber (Num n)) (subsampleBelow r)
     @ property ''polygonLayer'' JString (polygonLayer r)
     @ property ''lowerElevationKey'' JString (lowerElevationKey r)
     @ property ''upperElevationKey'' JString (upperElevationKey r)
     @ property ''spotGridSpacing'' (\<lambda>n. JNumber (Num n)) (spotGridSpacing r)
     @ property ''spotSortOrder'' (\<lambda>direction. JString (sortOrderString direction)) (spotSortOrder r)
     @ property ''spotLayer'' JString (spotLayer r)"

definition encodeOptions :: "GlobalContourTileOptions \<Rightarrow> string" where
  "encodeOptions options =
     (let encoded = restEntries (rest options);
          encoded = (case thresholds options of None \<Rightarrow> encoded
                     | Some ts \<Rightarrow> AList.update ''thresholds'' (JString (encodeThresholds ts)) encoded);
          encoded = (case lineLevels options of None \<Rightarrow> encoded
                     | Some ls \<Rightarrow> AList.update ''lineLevels'' (JString (encodeLevels ls)) encoded);
          encoded = (case polygonLevels options of None \<Rightarrow> encoded
                     | Some ps \<Rightarrow> AList.update ''polygonLevels'' (JString (encodeLevels ps)) encoded)
      in join ''&''
           (map (\<lambda>(key, value).
                   encodeURIComponent key @ ''='' @ encodeURIComponent (valueToString value))
              (sortedEntries encoded)))"

subsection \<open>decodeOptions\<close>

text \<open>
  \<open>options.replace(/^.*\?/, "")\<close>: on the first line, everything up to its last question
  mark is removed.
\<close>

definition lineTerminator :: "char \<Rightarrow> bool" where
  "lineTerminator c = (c = CHR 0x0A \<or> c = CHR 0x0D)"

definition stripQuery :: "string \<Rightarrow> string" where
  "stripQuery s =
     (let line = takeWhile (\<lambda>c. \<not> lineTerminator c) s
      in if CHR ''?'' \<in> set line
         then drop (length line - length (takeWhile (\<lambda>c. c \<noteq> CHR ''?'') (rev line))) s
         else s)"

text \<open>One \<open>&\<close> part; \<open>parts[1]\<close> is \<open>undefined\<close> (\<open>None\<close>) when the part has no \<open>=\<close>.\<close>

definition decodePart :: "string \<Rightarrow> stop + string \<times> jsvalue" where
  "decodePart part =
     (case traverse decodeURIComponent (splitOn CHR ''='' part) of
        Inl e \<Rightarrow> Inl e
      | Inr parts \<Rightarrow>
          (let k = hd parts;
               v = (if 1 < length parts then Some (parts ! 1) else None)
           in if k = ''thresholds'' then
                (case v of
                   None \<Rightarrow> Inl TypeError
                 | Some s \<Rightarrow> (case decodeThresholds s of
                               Inl e \<Rightarrow> Inl e | Inr object \<Rightarrow> Inr (k, JObject object)))
              else if k = ''lineLevels'' \<or> k = ''polygonLevels'' then
                (case v of
                   None \<Rightarrow> Inl TypeError
                 | Some s \<Rightarrow> (case decodeLevels s of
                               Inl e \<Rightarrow> Inl e | Inr object \<Rightarrow> Inr (k, JObject object)))
              else if k = ''extent'' \<or> k = ''multiplier'' \<or> k = ''overzoom'' \<or> k = ''buffer'' then
                (case v of
                   None \<Rightarrow> Inr (k, JNumber NaN)
                 | Some s \<Rightarrow> (case toNumber s of
                               Inl e \<Rightarrow> Inl e | Inr n \<Rightarrow> Inr (k, JNumber n)))
              else Inr (k, case v of None \<Rightarrow> Undefined | Some s \<Rightarrow> JString s)))"

definition decodeOptions :: "string \<Rightarrow> stop + (string \<Rightarrow> jsvalue option)" where
  "decodeOptions options =
     (case traverse decodePart (splitOn CHR ''&'' (stripQuery options)) of
        Inl e \<Rightarrow> Inl e
      | Inr entries \<Rightarrow> Inr (fromEntries entries))"

subsection \<open>An options value as a JavaScript object\<close>

definition thresholdValue :: "threshold_value \<Rightarrow> zvalue" where
  "thresholdValue v = (case v of Single n \<Rightarrow> ZNumber (Num n) | Several ns \<Rightarrow> ZArray (map Num ns))"

definition levelsValue :: "int list \<Rightarrow> zvalue" where
  "levelsValue ns = ZArray (map Num ns)"

definition zoomObject :: "('v \<Rightarrow> zvalue) \<Rightarrow> 'v zoom_map \<Rightarrow> (string \<Rightarrow> zvalue option)" where
  "zoomObject f m = map_of (map (\<lambda>(key, value). (key, f value)) (zoomEntries m))"

definition zoomProperty ::
  "string \<Rightarrow> ('v \<Rightarrow> zvalue) \<Rightarrow> 'v zoom_map option \<Rightarrow> (string \<Rightarrow> jsvalue option)" where
  "zoomProperty name f axis =
     (case axis of None \<Rightarrow> Map.empty | Some m \<Rightarrow> [name \<mapsto> JObject (zoomObject f m)])"

definition objectOf :: "GlobalContourTileOptions \<Rightarrow> (string \<Rightarrow> jsvalue option)" where
  "objectOf options =
     map_of (restEntries (rest options))
     ++ zoomProperty ''thresholds'' thresholdValue (thresholds options)
     ++ zoomProperty ''lineLevels'' levelsValue (lineLevels options)
     ++ zoomProperty ''polygonLevels'' levelsValue (polygonLevels options)"

subsection \<open>Splitting what was joined\<close>

lemma splitOn_no_separator: "c \<notin> set s \<Longrightarrow> splitOn c s = [s]"
proof -
  assume "c \<notin> set s"
  then have dw: "dropWhile (\<lambda>x. x \<noteq> c) s = []" by (auto simp: dropWhile_eq_Nil_conv)
  show ?thesis by (subst splitOn.simps) (simp only: dw list.case)
qed

lemma splitOn_first_part: "c \<notin> set p \<Longrightarrow> splitOn c (p @ c # s) = p # splitOn c s"
proof -
  assume a: "c \<notin> set p"
  then have dw: "dropWhile (\<lambda>x. x \<noteq> c) (p @ c # s) = c # s"
    by (subst dropWhile_append2) auto
  from a have tw: "takeWhile (\<lambda>x. x \<noteq> c) (p @ c # s) = p"
    by (subst takeWhile_append2) auto
  show ?thesis by (subst splitOn.simps) (simp only: dw tw list.case)
qed

lemma splitOn_join:
  "parts \<noteq> [] \<Longrightarrow> \<forall>p \<in> set parts. c \<notin> set p \<Longrightarrow> splitOn c (join [c] parts) = parts"
proof (induction "[c]" parts rule: join.induct)
  case 1
  then show ?case by simp
next
  case (2 p)
  then show ?case by (simp add: splitOn_no_separator)
next
  case (3 p q ps)
  then show ?case by (simp add: splitOn_first_part)
qed

lemma set_join: "set (join sep parts) \<subseteq> set sep \<union> \<Union> (set ` set parts)"
  by (induction sep parts rule: join.induct) auto

subsection \<open>Reading back the decimal string of an integer\<close>

lemma digit_char:
  assumes "0 \<le> d" "d < 10"
  shows "isDigit (''0123456789'' ! nat d)" and "digitValue (''0123456789'' ! nat d) = d"
proof -
  from assms have "d = 0 \<or> d = 1 \<or> d = 2 \<or> d = 3 \<or> d = 4 \<or> d = 5 \<or> d = 6 \<or> d = 7 \<or> d = 8 \<or> d = 9"
    by arith
  then show "isDigit (''0123456789'' ! nat d)" and "digitValue (''0123456789'' ! nat d) = d"
    by (auto simp: isDigit_def digitValue_def)
qed

lemma decimalValue_snoc: "decimalValue (ds @ [c]) = 10 * decimalValue ds + digitValue c"
  by (simp add: decimalValue_def)

lemma digitsOf_digits:
  "0 \<le> n \<Longrightarrow> digitsOf n \<noteq> [] \<and> list_all isDigit (digitsOf n) \<and> decimalValue (digitsOf n) = n"
proof (induction n rule: digitsOf.induct)
  case (1 n)
  show ?case
  proof (cases "n < 10")
    case True
    with 1(2) show ?thesis
      by (subst (1 2 3) digitsOf.simps) (simp add: digit_char decimalValue_def)
  next
    case False
    then have ih: "digitsOf (n div 10) \<noteq> [] \<and> list_all isDigit (digitsOf (n div 10))
        \<and> decimalValue (digitsOf (n div 10)) = n div 10"
      using 1 by simp
    have m: "0 \<le> n mod 10" "n mod 10 < 10" by simp_all
    from False ih show ?thesis
      by (subst (1 2 3) digitsOf.simps) (simp add: decimalValue_snoc digit_char [OF m])
  qed
qed

definition safeInteger :: "int \<Rightarrow> bool" where
  "safeInteger n = (\<bar>n\<bar> \<le> 9007199254740992)"

lemma isDigit_not_space: "isDigit c \<Longrightarrow> \<not> isSpace c"
  by (auto simp: isDigit_def isSpace_def)

lemma trim_no_space: "\<forall>c \<in> set s. \<not> isSpace c \<Longrightarrow> trim s = s"
proof -
  assume a: "\<forall>c \<in> set s. \<not> isSpace c"
  then have 1: "dropWhile isSpace s = s" by (cases s) auto
  from a have 2: "dropWhile isSpace (rev s) = rev s" by (cases "rev s") auto
  show ?thesis by (simp add: trim_def 1 2)
qed

lemma digitsOf_chars:
  assumes "0 \<le> n"
  shows "digitsOf n \<noteq> []" "\<forall>c \<in> set (digitsOf n). isDigit c" "decimalValue (digitsOf n) = n"
  using digitsOf_digits [OF assms] by (simp_all add: list_all_iff)

lemma dropSign_digits: "ds \<noteq> [] \<Longrightarrow> \<forall>c \<in> set ds. isDigit c \<Longrightarrow> dropSign ds = ds"
  by (cases ds) (auto simp: dropSign_def isDigit_def)

lemma hd_digits: "ds \<noteq> [] \<Longrightarrow> \<forall>c \<in> set ds. isDigit c \<Longrightarrow> hd ds \<noteq> CHR ''-''"
  by (cases ds) (auto simp: isDigit_def)

lemma stringToNumber_digits:
  assumes "ds \<noteq> []" "\<forall>c \<in> set ds. isDigit c" "decimalValue ds \<le> 9007199254740992"
  shows "stringToNumber ds = Some (Num (decimalValue ds))"
    and "stringToNumber (CHR ''-'' # ds) = Some (Num (- decimalValue ds))"
proof -
  have nospace: "\<forall>c \<in> set ds. \<not> isSpace c" using assms(2) isDigit_not_space by blast
  then have t1: "trim ds = ds" by (rule trim_no_space)
  have "\<not> isSpace CHR ''-''" by (simp add: isSpace_def)
  with nospace have t2: "trim (CHR ''-'' # ds) = CHR ''-'' # ds"
    by (intro trim_no_space) simp
  have dd: "decimalDigits ds" using assms(1,2) by (simp add: decimalDigits_def list_all_iff)
  show "stringToNumber ds = Some (Num (decimalValue ds))"
    using assms dd
    by (simp add: stringToNumber_def t1 Let_def dropSign_digits hd_digits)
  show "stringToNumber (CHR ''-'' # ds) = Some (Num (- decimalValue ds))"
    using assms dd
    by (simp add: stringToNumber_def t2 Let_def dropSign_def)
qed

lemma stringToNumber_numberToString:
  assumes "safeInteger n"
  shows "stringToNumber (numberToString n) = Some (Num n)"
proof (cases "n < 0")
  case True
  then have nn: "0 \<le> - n" by simp
  have "decimalValue (digitsOf (- n)) \<le> 9007199254740992"
    using assms True by (simp add: digitsOf_chars(3) [OF nn] safeInteger_def)
  from stringToNumber_digits(2) [OF digitsOf_chars(1,2) [OF nn] this] True
  show ?thesis by (simp add: numberToString_def digitsOf_chars(3) [OF nn])
next
  case False
  then have nn: "0 \<le> n" by simp
  have "decimalValue (digitsOf n) \<le> 9007199254740992"
    using assms False by (simp add: digitsOf_chars(3) [OF nn] safeInteger_def)
  from stringToNumber_digits(1) [OF digitsOf_chars(1,2) [OF nn] this] False
  show ?thesis by (simp add: numberToString_def digitsOf_chars(3) [OF nn])
qed

text \<open>The characters of a decimal string: digits and the minus sign.\<close>

definition numberChar :: "char \<Rightarrow> bool" where
  "numberChar c = (isDigit c \<or> c = CHR ''-'')"

lemma numberToString_chars: "\<forall>c \<in> set (numberToString n). numberChar c"
proof (cases "n < 0")
  case True
  then have "0 \<le> - n" by simp
  from digitsOf_chars(2) [OF this] True show ?thesis
    by (simp add: numberToString_def numberChar_def)
next
  case False
  then have "0 \<le> n" by simp
  from digitsOf_chars(2) [OF this] False show ?thesis
    by (simp add: numberToString_def numberChar_def)
qed

lemma numberToString_inj:
  "safeInteger a \<Longrightarrow> safeInteger b \<Longrightarrow> numberToString a = numberToString b \<Longrightarrow> a = b"
  by (metis stringToNumber_numberToString option.inject jsnum.inject)

lemma toNumber_numberToString: "safeInteger n \<Longrightarrow> toNumber (numberToString n) = Inr (Num n)"
  by (simp add: toNumber_def stringToNumber_numberToString)

subsection \<open>Decoding what encodeURIComponent wrote\<close>

definition ascii :: "string \<Rightarrow> bool" where
  "ascii s = list_all (\<lambda>c. of_char c < (128::nat)) s"

text \<open>The characters that \<open>encodeURIComponent\<close> writes.\<close>

definition uriChar :: "char \<Rightarrow> bool" where
  "uriChar c = (unreserved c \<or> c = CHR ''%'' \<or> c \<in> set ''0123456789ABCDEF'')"

lemma hexDigits_all:
  "\<forall>n \<in> set [0 ..< 16]. hexValue (hexDigit n) = Some n \<and> uriChar (hexDigit n)"
  by code_simp

lemma hexValue_hexDigit: "n < 16 \<Longrightarrow> hexValue (hexDigit n) = Some n"
  using hexDigits_all by simp

lemma unreserved_not_percent: "unreserved c \<Longrightarrow> c \<noteq> CHR ''%''"
  by (auto simp: unreserved_def)

lemma decodeURIComponent_encodeChar:
  assumes "of_char c < (128::nat)"
  shows "decodeURIComponent (encodeChar c @ s) =
           (case decodeURIComponent s of Inl e \<Rightarrow> Inl e | Inr t \<Rightarrow> Inr (c # t))"
proof (cases "unreserved c")
  case True
  then show ?thesis by (simp add: encodeChar_def unreserved_not_percent)
next
  case False
  let ?n = "of_char c :: nat"
  have "?n div 16 < 16"
    using assms by (intro less_mult_imp_div_less) simp
  then have hi: "hexValue (hexDigit (?n div 16)) = Some (?n div 16)"
    by (rule hexValue_hexDigit)
  have lo: "hexValue (hexDigit (?n mod 16)) = Some (?n mod 16)"
    by (intro hexValue_hexDigit) simp
  have same: "char_of (16 * (?n div 16) + ?n mod 16) = c" by simp
  have small: "16 * (?n div 16) + ?n mod 16 < 128" using assms by simp
  show ?thesis
    using False small
    by (cases "decodeURIComponent s") (simp_all add: encodeChar_def hi lo same)
qed

lemma decodeURIComponent_encodeURIComponent:
  "ascii s \<Longrightarrow> decodeURIComponent (encodeURIComponent s) = Inr s"
proof (induction s)
  case Nil
  show ?case by (simp add: encodeURIComponent_def)
next
  case (Cons c s)
  then have c: "of_char c < (128::nat)" and s: "ascii s" by (simp_all add: ascii_def)
  have "encodeURIComponent (c # s) = encodeChar c @ encodeURIComponent s"
    by (simp add: encodeURIComponent_def)
  then show ?case
    by (simp add: decodeURIComponent_encodeChar [OF c] Cons.IH [OF s])
qed

lemma hexDigit_uriChar: "n < 16 \<Longrightarrow> uriChar (hexDigit n)"
  using hexDigits_all by simp

lemma uriChar_simple: "uriChar CHR ''%''" "unreserved c \<Longrightarrow> uriChar c"
  by (simp_all add: uriChar_def)

lemma encodeChar_uriChar: "\<forall>x \<in> set (encodeChar c). uriChar x"
proof -
  have "(of_char c :: nat) < 256"
    by (metis of_char_mod_256 mod_less_divisor zero_less_numeral)
  then have "of_char c div 16 < (16::nat)"
    by (intro less_mult_imp_div_less) simp
  moreover have "of_char c mod 16 < (16::nat)" by simp
  ultimately show ?thesis
    by (auto simp: encodeChar_def uriChar_simple hexDigit_uriChar)
qed

lemma encodeURIComponent_uriChar: "\<forall>x \<in> set (encodeURIComponent s). uriChar x"
  using encodeChar_uriChar by (auto simp: encodeURIComponent_def)

lemma uriChar_not_separator:
  "uriChar c \<Longrightarrow> c \<noteq> CHR ''&'' \<and> c \<noteq> CHR ''='' \<and> c \<noteq> CHR ''?''"
  by (auto simp: uriChar_def unreserved_def)

subsection \<open>Entries, sorted and collected again\<close>

lemma traverse_all:
  "\<forall>x \<in> set xs. f x = Inr (g x) \<Longrightarrow> traverse f xs = Inr (map g xs)"
  by (induction xs) simp_all

lemma set_sortedEntries: "set (sortedEntries entries) = set entries"
  by (simp add: sortedEntries_def)

lemma sortedEntries_Nil: "sortedEntries entries = [] \<longleftrightarrow> entries = []"
  by (metis set_sortedEntries set_empty)

lemma distinct_sortedEntries:
  "distinct (map fst (sortedEntries entries)) \<longleftrightarrow> distinct (map fst entries)"
proof -
  have "mset (map fst (sortedEntries entries)) = mset (map fst entries)"
    by (simp add: sortedEntries_def)
  then show ?thesis by (rule mset_eq_imp_distinct_iff)
qed

lemma fromEntries_rev: "fromEntries entries = map_of (rev entries)"
proof -
  have "foldl (\<lambda>object (key, value). object(key \<mapsto> value)) m entries = m ++ map_of (rev entries)"
    for m :: "string \<Rightarrow> 'a option"
    by (induction entries arbitrary: m) (auto simp: map_add_upd_left fun_eq_iff map_add_def split: option.splits)
  from this [of Map.empty] show ?thesis by (simp add: fromEntries_def)
qed

lemma fromEntries_distinct:
  assumes "distinct (map fst entries)"
  shows "fromEntries entries = map_of entries"
proof -
  have "map_of (rev entries) = map_of entries"
    using assms by (subst map_of_inject_set) (simp_all add: rev_map [symmetric])
  then show ?thesis by (simp add: fromEntries_rev)
qed

lemma fromEntries_sortedEntries:
  assumes "distinct (map fst entries)"
  shows "fromEntries (sortedEntries entries) = map_of entries"
proof -
  have d: "distinct (map fst (sortedEntries entries))"
    using assms by (simp add: distinct_sortedEntries)
  have "map_of (sortedEntries entries) = map_of entries"
    using assms d by (subst map_of_inject_set) (simp_all add: set_sortedEntries)
  with d show ?thesis by (simp add: fromEntries_distinct)
qed

text \<open>When the value stored under a name depends on the name alone, the order is irrelevant.\<close>

lemma fromEntries_by_key:
  "fromEntries (map (\<lambda>(key, value). (key, h key)) entries)
     = (\<lambda>key. if key \<in> fst ` set entries then Some (h key) else None)"
proof -
  have "map_of (rev (map (\<lambda>(key, value). (key, h key)) entries)) key
      = (if key \<in> fst ` set entries then Some (h key) else None)" for key
  proof (cases "key \<in> fst ` set entries")
    case True
    then have "key \<in> fst ` set (rev (map (\<lambda>(key, value). (key, h key)) entries))"
      by (force simp: image_iff)
    then obtain v where v: "map_of (rev (map (\<lambda>(key, value). (key, h key)) entries)) key = Some v"
      by (metis domD dom_map_of_conv_image_fst)
    then have "(key, v) \<in> set (rev (map (\<lambda>(key, value). (key, h key)) entries))"
      by (rule map_of_SomeD)
    then have "v = h key" by auto
    with v True show ?thesis by simp
  next
    case False
    then have "key \<notin> fst ` set (rev (map (\<lambda>(key, value). (key, h key)) entries))"
      by (force simp: image_iff)
    then have "map_of (rev (map (\<lambda>(key, value). (key, h key)) entries)) key = None"
      by (simp add: map_of_eq_None_iff)
    with False show ?thesis by simp
  qed
  then show ?thesis by (simp add: fromEntries_rev fun_eq_iff)
qed

subsection \<open>Decoding an encoded zoom map\<close>

text \<open>
  A zoom map that the string form can carry: it has an entry, its zoom keys are distinct,
  and its numbers are integers that doubles hold exactly. \<open>toList\<close> gives the numbers of an
  entry.
\<close>

definition zoomMapOK :: "('v \<Rightarrow> int list) \<Rightarrow> 'v zoom_map \<Rightarrow> bool" where
  "zoomMapOK toList m =
     (m \<noteq> [] \<and> distinct (map fst m)
      \<and> list_all (\<lambda>(zoom, value). safeInteger zoom \<and> list_all safeInteger (toList value)) m)"

text \<open>The common shape of \<open>encodeThresholds\<close> and \<open>encodeLevels\<close>.\<close>

definition zoomPart :: "('v \<Rightarrow> int list) \<Rightarrow> string \<times> 'v \<Rightarrow> string" where
  "zoomPart toList entry = join ''*'' (fst entry # map numberToString (toList (snd entry)))"

definition encodeZoomMap :: "('v \<Rightarrow> int list) \<Rightarrow> 'v zoom_map \<Rightarrow> string" where
  "encodeZoomMap toList m = join ''~'' (map (zoomPart toList) (sortedEntries (zoomEntries m)))"

lemma zoomPart_split:
  "zoomPart toList = (\<lambda>(key, value). join ''*'' (key # map numberToString (toList value)))"
  by (auto simp: fun_eq_iff zoomPart_def)

lemma encodeThresholds_shape: "encodeThresholds ts = encodeZoomMap thresholdList ts"
  by (simp add: encodeThresholds_def encodeZoomMap_def zoomPart_split)

lemma encodeLevels_shape: "encodeLevels ls = encodeZoomMap (\<lambda>value. value) ls"
  by (simp add: encodeLevels_def encodeZoomMap_def zoomPart_split)

lemma traverse_map:
  "\<forall>a \<in> set as. f (h a) = Inr (g a) \<Longrightarrow> traverse f (map h as) = Inr (map g as)"
  by (induction as) simp_all

lemma numberChar_not_separator:
  "numberChar c \<Longrightarrow> c \<noteq> CHR ''*'' \<and> c \<noteq> CHR ''~''"
  by (auto simp: numberChar_def isDigit_def)

lemma numberToString_no_separator:
  "CHR ''*'' \<notin> set (numberToString n)" "CHR ''~'' \<notin> set (numberToString n)"
  using numberToString_chars [of n] numberChar_not_separator by blast+

lemma zoomPart_no_tilde: "CHR ''~'' \<notin> set (zoomPart toList (numberToString k, v))"
proof
  assume "CHR ''~'' \<in> set (zoomPart toList (numberToString k, v))"
  then have "CHR ''~'' \<in> set ''*'' \<union> \<Union> (set ` set (numberToString k # map numberToString (toList v)))"
    using set_join [of "''*''"] unfolding zoomPart_def by (auto simp del: set_simps)
  then show False
    using numberToString_no_separator(2) by auto
qed

lemma decodeZoomPart_zoomPart:
  assumes "safeInteger k" "list_all safeInteger (toList v)"
  shows "decodeZoomPart (zoomPart toList (numberToString k, v))
         = Inr (numberToString k, ZArray (map Num (toList v)))"
proof -
  let ?parts = "map numberToString (k # toList v)"
  have split: "splitOn CHR ''*'' (join ''*'' ?parts) = ?parts"
    by (rule splitOn_join) (auto simp: numberToString_no_separator)
  have "\<forall>a \<in> set (k # toList v). toNumber (numberToString a) = Inr (Num a)"
    using assms by (auto simp: list_all_iff toNumber_numberToString)
  then have "traverse toNumber ?parts = Inr (map Num (k # toList v))"
    by (rule traverse_map)
  with split show ?thesis
    by (simp add: decodeZoomPart_def zoomPart_def jsnumToString_def)
qed

lemma zoomEntries_keys:
  assumes "zoomMapOK toList m"
  shows "distinct (map fst (zoomEntries m))"
proof -
  have safe: "\<forall>k \<in> set (map fst m). safeInteger k"
    using assms by (auto simp: zoomMapOK_def list_all_iff)
  have "inj_on numberToString (set (map fst m))"
    using safe by (intro inj_onI) (blast intro: numberToString_inj)
  moreover have "distinct (map fst m)" using assms by (simp add: zoomMapOK_def)
  ultimately have "distinct (map numberToString (map fst m))"
    unfolding distinct_map [of numberToString "map fst m"] by blast
  moreover have "map fst (zoomEntries m) = map numberToString (map fst m)"
    by (simp add: zoomEntries_def case_prod_beta comp_def)
  ultimately show ?thesis by simp
qed

lemma zoomEntries_entry:
  assumes "zoomMapOK toList m" "entry \<in> set (zoomEntries m)"
  shows "\<exists>k v. entry = (numberToString k, v) \<and> safeInteger k \<and> list_all safeInteger (toList v)"
proof -
  from assms(2) obtain k v where kv: "(k, v) \<in> set m" and e: "entry = (numberToString k, v)"
    by (auto simp: zoomEntries_def)
  from assms(1) kv have "safeInteger k \<and> list_all safeInteger (toList v)"
    by (auto simp: zoomMapOK_def list_all_iff)
  with e show ?thesis by blast
qed

lemma decode_encodeZoomMap:
  assumes "zoomMapOK toList m"
  shows "traverse decodeZoomPart (splitOn CHR ''~'' (encodeZoomMap toList m))
         = Inr (map (\<lambda>entry. (fst entry, ZArray (map Num (toList (snd entry)))))
                  (sortedEntries (zoomEntries m)))"
proof -
  let ?entries = "sortedEntries (zoomEntries m)"
  have entry: "\<exists>k v. entry = (numberToString k, v) \<and> safeInteger k \<and> list_all safeInteger (toList v)"
    if "entry \<in> set ?entries" for entry
    using that zoomEntries_entry [OF assms] by (simp add: set_sortedEntries)
  have nonempty: "map (zoomPart toList) ?entries \<noteq> []"
    using assms by (simp add: sortedEntries_Nil zoomEntries_def zoomMapOK_def)
  have "\<forall>p \<in> set (map (zoomPart toList) ?entries). CHR ''~'' \<notin> set p"
    using entry zoomPart_no_tilde by fastforce
  with nonempty have split:
    "splitOn CHR ''~'' (encodeZoomMap toList m) = map (zoomPart toList) ?entries"
    unfolding encodeZoomMap_def by (rule splitOn_join)
  have "\<forall>entry \<in> set ?entries.
      decodeZoomPart (zoomPart toList entry)
        = Inr (fst entry, ZArray (map Num (toList (snd entry))))"
    using entry decodeZoomPart_zoomPart by fastforce
  then show ?thesis
    unfolding split by (rule traverse_map)
qed

lemma fromEntries_zoom:
  assumes "zoomMapOK toList m"
  shows "fromEntries (map (\<lambda>entry. (fst entry, f (snd entry))) (sortedEntries (zoomEntries m)))
         = zoomObject f m"
proof -
  let ?g = "\<lambda>entry :: string \<times> 'a. (fst entry, f (snd entry))"
  have keys: "map fst (map ?g entries) = map fst entries" for entries
    by (simp add: comp_def)
  have d1: "distinct (map fst (map ?g (sortedEntries (zoomEntries m))))"
    unfolding keys using zoomEntries_keys [OF assms] by (simp add: distinct_sortedEntries)
  have d2: "distinct (map fst (map ?g (zoomEntries m)))"
    unfolding keys using zoomEntries_keys [OF assms] .
  have "map_of (map ?g (sortedEntries (zoomEntries m))) = map_of (map ?g (zoomEntries m))"
    using d1 d2 by (subst map_of_inject_set) (simp_all add: set_sortedEntries)
  with d1 show ?thesis
    by (simp add: fromEntries_distinct zoomObject_def case_prod_unfold)
qed

lemma decodeThresholds_encodeThresholds:
  assumes "zoomMapOK thresholdList ts"
  shows "decodeThresholds (encodeThresholds ts)
         = Inr (zoomObject (\<lambda>value. ZArray (map Num (thresholdList value))) ts)"
  using fromEntries_zoom [OF assms, of "\<lambda>value. ZArray (map Num (thresholdList value))"]
  by (simp add: decodeThresholds_def encodeThresholds_shape decode_encodeZoomMap [OF assms])

lemma decodeLevels_encodeLevels:
  assumes "zoomMapOK (\<lambda>value. value) ls"
  shows "decodeLevels (encodeLevels ls) = Inr (zoomObject levelsValue ls)"
  using fromEntries_zoom [OF assms, of levelsValue]
  by (simp add: decodeLevels_def encodeLevels_shape decode_encodeZoomMap [OF assms]
        levelsValue_def)

subsection \<open>The properties of rest\<close>

definition keysIn :: "string list \<Rightarrow> (string \<times> 'v) list \<Rightarrow> bool" where
  "keysIn names entries = (distinct (map fst entries) \<and> fst ` set entries \<subseteq> set names)"

lemma set_property: "set (property name f v) = (\<lambda>a. (name, f a)) ` set_option v"
  by (cases v) (simp_all add: property_def)

lemma keysIn_property: "keysIn [name] (property name f v)"
  by (cases v) (simp_all add: keysIn_def property_def)

lemma keysIn_append:
  "keysIn names entries \<Longrightarrow> name \<notin> set names \<Longrightarrow>
   keysIn (name # names) (property name f v @ entries)"
  by (cases v) (auto simp: keysIn_def property_def)

definition restNames :: "string list" where
  "restNames = [''multiplier'', ''overzoom'', ''elevationKey'', ''levelKey'', ''contourLayer'',
     ''extent'', ''buffer'', ''subsampleBelow'', ''polygonLayer'', ''lowerElevationKey'',
     ''upperElevationKey'', ''spotGridSpacing'', ''spotSortOrder'', ''spotLayer'']"

lemma restEntries_keys: "keysIn restNames (restEntries r)"
  unfolding restEntries_def restNames_def
  by (intro keysIn_append keysIn_property) simp_all

lemma restEntries_distinct: "distinct (map fst (restEntries r))"
  using restEntries_keys by (simp add: keysIn_def)

lemma restEntries_names: "(k, v) \<in> set (restEntries r) \<Longrightarrow> k \<in> set restNames"
  using restEntries_keys [of r] by (force simp: keysIn_def)

text \<open>
  The fields of \<open>rest\<close> that come back as they were: the numbers that \<open>decodeOptions\<close>
  converts, when they are integers that doubles hold exactly, and the ASCII strings.
  \<open>subsampleBelow\<close> and \<open>spotGridSpacing\<close> are left unset.
\<close>

definition restOK :: "ContourTileOptions \<Rightarrow> bool" where
  "restOK r =
     (subsampleBelow r = None \<and> spotGridSpacing r = None
      \<and> (\<forall>n \<in> set_option (multiplier r) \<union> set_option (overzoom r)
               \<union> set_option (extent r) \<union> set_option (buffer r). safeInteger n)
      \<and> (\<forall>s \<in> set_option (elevationKey r) \<union> set_option (levelKey r)
               \<union> set_option (contourLayer r) \<union> set_option (polygonLayer r)
               \<union> set_option (lowerElevationKey r) \<union> set_option (upperElevationKey r)
               \<union> set_option (spotLayer r). ascii s))"

definition numberNames :: "string list" where
  "numberNames = [''extent'', ''multiplier'', ''overzoom'', ''buffer'']"

definition stringNames :: "string list" where
  "stringNames = [''elevationKey'', ''levelKey'', ''contourLayer'', ''polygonLayer'',
     ''lowerElevationKey'', ''upperElevationKey'', ''spotSortOrder'', ''spotLayer'']"

lemma ascii_sortOrderString: "ascii (sortOrderString direction)"
  by (cases direction) (simp_all add: sortOrderString_def ascii_def)

lemma in_property:
  "(k, v) \<in> set (property name f x) \<longleftrightarrow> (\<exists>a. x = Some a \<and> k = name \<and> v = f a)"
  by (cases x) (auto simp: property_def)

lemma restOK_fields:
  assumes "restOK r"
  shows "subsampleBelow r = None" "spotGridSpacing r = None"
    "multiplier r = Some n \<Longrightarrow> safeInteger n" "overzoom r = Some n \<Longrightarrow> safeInteger n"
    "extent r = Some n \<Longrightarrow> safeInteger n" "buffer r = Some n \<Longrightarrow> safeInteger n"
    "elevationKey r = Some s \<Longrightarrow> ascii s" "levelKey r = Some s \<Longrightarrow> ascii s"
    "contourLayer r = Some s \<Longrightarrow> ascii s" "polygonLayer r = Some s \<Longrightarrow> ascii s"
    "lowerElevationKey r = Some s \<Longrightarrow> ascii s" "upperElevationKey r = Some s \<Longrightarrow> ascii s"
    "spotLayer r = Some s \<Longrightarrow> ascii s"
  using assms by (simp_all add: restOK_def)

lemma restEntries_cases:
  assumes "restOK r" "(k, v) \<in> set (restEntries r)"
  shows "(k \<in> set numberNames \<and> (\<exists>n. v = JNumber (Num n) \<and> safeInteger n))
         \<or> (k \<in> set stringNames \<and> (\<exists>s. v = JString s \<and> ascii s))"
  using assms(2)
  unfolding restEntries_def set_append Un_iff in_property
  by (elim disjE exE conjE)
     (simp_all add: restOK_fields [OF assms(1)] numberNames_def stringNames_def
        ascii_sortOrderString)

subsection \<open>Decoding one encoded property\<close>

definition encodePart :: "string \<times> jsvalue \<Rightarrow> string" where
  "encodePart entry =
     encodeURIComponent (fst entry) @ ''='' @ encodeURIComponent (valueToString (snd entry))"

lemma encodePart_chars: "\<forall>c \<in> set (encodePart entry). uriChar c \<or> c = CHR ''=''"
  using encodeURIComponent_uriChar by (auto simp: encodePart_def)

lemma encodePart_no_separator:
  "CHR ''&'' \<notin> set (encodePart entry)" "CHR ''?'' \<notin> set (encodePart entry)"
  using encodePart_chars [of entry] uriChar_not_separator by fastforce+

lemma split_encodePart:
  "splitOn CHR ''='' (encodePart (k, v))
     = [encodeURIComponent k, encodeURIComponent (valueToString v)]"
proof -
  have no: "CHR ''='' \<notin> set (encodeURIComponent s)" for s
    using encodeURIComponent_uriChar [of s] uriChar_not_separator by blast
  show ?thesis
    by (simp add: encodePart_def splitOn_first_part [OF no] splitOn_no_separator [OF no])
qed

lemma decode_parts:
  assumes "ascii k" "ascii (valueToString v)"
  shows "traverse decodeURIComponent (splitOn CHR ''='' (encodePart (k, v)))
         = Inr [k, valueToString v]"
  using assms by (simp add: split_encodePart decodeURIComponent_encodeURIComponent)

lemma numberChars_small: "\<forall>c \<in> set ''0123456789-*~''. of_char c < (128::nat)"
  by code_simp

lemma ascii_numberChars:
  assumes "\<forall>c \<in> set s. numberChar c \<or> c = CHR ''*'' \<or> c = CHR ''~''"
  shows "ascii s"
proof -
  have "c \<in> set ''0123456789-*~''" if "c \<in> set s" for c
    using assms that by (auto simp: numberChar_def isDigit_def)
  with numberChars_small show ?thesis
    unfolding ascii_def list_all_iff by blast
qed

lemma ascii_numberToString: "ascii (numberToString n)"
  using numberToString_chars [of n] by (intro ascii_numberChars) blast

lemma encodeZoomMap_chars:
  "\<forall>c \<in> set (encodeZoomMap toList m). numberChar c \<or> c = CHR ''*'' \<or> c = CHR ''~''"
proof
  fix c assume "c \<in> set (encodeZoomMap toList m)"
  then have "c \<in> set ''~'' \<or> (\<exists>entry \<in> set (sortedEntries (zoomEntries m)).
      c \<in> set (zoomPart toList entry))"
    using set_join [of "''~''" "map (zoomPart toList) (sortedEntries (zoomEntries m))"]
    unfolding encodeZoomMap_def by auto
  then show "numberChar c \<or> c = CHR ''*'' \<or> c = CHR ''~''"
  proof
    assume "c \<in> set ''~''"
    then show ?thesis by simp
  next
    assume "\<exists>entry \<in> set (sortedEntries (zoomEntries m)). c \<in> set (zoomPart toList entry)"
    then obtain entry where e: "entry \<in> set (zoomEntries m)" and c: "c \<in> set (zoomPart toList entry)"
      by (auto simp: set_sortedEntries)
    from e obtain z where z: "fst entry = numberToString z"
      by (auto simp: zoomEntries_def)
    from c have "c \<in> set ''*'' \<or> c \<in> set (fst entry)
        \<or> (\<exists>n \<in> set (toList (snd entry)). c \<in> set (numberToString n))"
      using set_join [of "''*''" "fst entry # map numberToString (toList (snd entry))"]
      unfolding zoomPart_def by auto
    then show ?thesis
      using numberToString_chars z by auto
  qed
qed

lemma ascii_encodeZoomMap: "ascii (encodeZoomMap toList m)"
  using encodeZoomMap_chars by (rule ascii_numberChars)

lemma ascii_all_names:
  "list_all ascii (''thresholds'' # ''lineLevels'' # ''polygonLevels'' # restNames)"
  by code_simp

lemma ascii_names:
  "k \<in> set restNames \<Longrightarrow> ascii k"
  "ascii ''thresholds''" "ascii ''lineLevels''" "ascii ''polygonLevels''"
  using ascii_all_names by (simp_all add: list_all_iff)

lemma decodePart_number:
  assumes "k \<in> set numberNames" "safeInteger n"
  shows "decodePart (encodePart (k, JNumber (Num n))) = Inr (k, JNumber (Num n))"
proof -
  have "k \<in> set restNames" using assms(1) by (auto simp: numberNames_def restNames_def)
  then have "ascii k" by (rule ascii_names)
  then have parts: "traverse decodeURIComponent (splitOn CHR ''='' (encodePart (k, JNumber (Num n))))
      = Inr [k, numberToString n]"
    using decode_parts [of k "JNumber (Num n)"]
    by (simp add: valueToString_def jsnumToString_def ascii_numberToString)
  show ?thesis
    using assms
    by (auto simp: decodePart_def parts numberNames_def toNumber_numberToString)
qed

lemma decodePart_string:
  assumes "k \<in> set stringNames" "ascii s"
  shows "decodePart (encodePart (k, JString s)) = Inr (k, JString s)"
proof -
  have "k \<in> set restNames" using assms(1) by (auto simp: stringNames_def restNames_def)
  then have "ascii k" by (rule ascii_names)
  then have parts: "traverse decodeURIComponent (splitOn CHR ''='' (encodePart (k, JString s)))
      = Inr [k, s]"
    using decode_parts [of k "JString s"] assms(2) by (simp add: valueToString_def)
  show ?thesis
    using assms(1) by (auto simp: decodePart_def parts stringNames_def)
qed

lemma decodePart_thresholds:
  assumes "zoomMapOK thresholdList ts"
  shows "decodePart (encodePart (''thresholds'', JString (encodeThresholds ts)))
         = Inr (''thresholds'',
                JObject (zoomObject (\<lambda>value. ZArray (map Num (thresholdList value))) ts))"
proof -
  have parts: "traverse decodeURIComponent
        (splitOn CHR ''='' (encodePart (''thresholds'', JString (encodeThresholds ts))))
      = Inr [''thresholds'', encodeThresholds ts]"
    using decode_parts [of "''thresholds''" "JString (encodeThresholds ts)"]
    by (simp add: valueToString_def ascii_names encodeThresholds_shape ascii_encodeZoomMap)
  show ?thesis
    by (simp add: decodePart_def parts decodeThresholds_encodeThresholds [OF assms])
qed

lemma decodePart_levels:
  assumes "zoomMapOK (\<lambda>value. value) ls" "k = ''lineLevels'' \<or> k = ''polygonLevels''"
  shows "decodePart (encodePart (k, JString (encodeLevels ls)))
         = Inr (k, JObject (zoomObject levelsValue ls))"
proof -
  have "ascii k" using assms(2) ascii_names by auto
  then have parts: "traverse decodeURIComponent
        (splitOn CHR ''='' (encodePart (k, JString (encodeLevels ls))))
      = Inr [k, encodeLevels ls]"
    using decode_parts [of k "JString (encodeLevels ls)"]
    by (simp add: valueToString_def encodeLevels_shape ascii_encodeZoomMap)
  show ?thesis
    using assms(2)
    by (auto simp: decodePart_def parts decodeLevels_encodeLevels [OF assms(1)])
qed

subsection \<open>Decoding the encoded options\<close>

text \<open>The object \<open>encoded\<close> that \<open>encodeOptions\<close> builds before it is sorted and joined.\<close>

definition encodedEntries :: "GlobalContourTileOptions \<Rightarrow> (string \<times> jsvalue) list" where
  "encodedEntries options =
     (let encoded = restEntries (rest options);
          encoded = (case thresholds options of None \<Rightarrow> encoded
                     | Some ts \<Rightarrow> AList.update ''thresholds'' (JString (encodeThresholds ts)) encoded);
          encoded = (case lineLevels options of None \<Rightarrow> encoded
                     | Some ls \<Rightarrow> AList.update ''lineLevels'' (JString (encodeLevels ls)) encoded);
          encoded = (case polygonLevels options of None \<Rightarrow> encoded
                     | Some ps \<Rightarrow> AList.update ''polygonLevels'' (JString (encodeLevels ps)) encoded)
      in encoded)"

text \<open>The options with every single threshold \<open>n\<close> written as the array \<open>[n]\<close>.\<close>

definition thresholdArrays :: "GlobalContourTileOptions \<Rightarrow> GlobalContourTileOptions" where
  "thresholdArrays options =
     options \<lparr> thresholds :=
       map_option (map (\<lambda>(zoom, value). (zoom, Several (thresholdList value)))) (thresholds options) \<rparr>"

definition thresholdsAreArrays :: "GlobalContourTileOptions \<Rightarrow> bool" where
  "thresholdsAreArrays options =
     (case thresholds options of
        None \<Rightarrow> True
      | Some ts \<Rightarrow> list_all (\<lambda>(zoom, value). case value of Single n \<Rightarrow> False | Several ns \<Rightarrow> True) ts)"

text \<open>
  The options that the string form carries: \<open>rest\<close> as in \<open>restOK\<close>, every zoom map that is
  set as in \<open>zoomMapOK\<close>, and at least one property set.
\<close>

definition roundTripOK :: "GlobalContourTileOptions \<Rightarrow> bool" where
  "roundTripOK options =
     (restOK (rest options)
      \<and> (case thresholds options of None \<Rightarrow> True | Some ts \<Rightarrow> zoomMapOK thresholdList ts)
      \<and> (case lineLevels options of None \<Rightarrow> True | Some ls \<Rightarrow> zoomMapOK (\<lambda>value. value) ls)
      \<and> (case polygonLevels options of None \<Rightarrow> True | Some ps \<Rightarrow> zoomMapOK (\<lambda>value. value) ps)
      \<and> encodedEntries options \<noteq> [])"

lemma encodeOptions_entries:
  "encodeOptions options = join ''&'' (map encodePart (sortedEntries (encodedEntries options)))"
proof -
  have "encodePart = (\<lambda>(key, value).
      encodeURIComponent key @ ''='' @ encodeURIComponent (valueToString value))"
    by (auto simp: fun_eq_iff encodePart_def)
  then show ?thesis
    by (simp add: encodeOptions_def encodedEntries_def Let_def)
qed

lemma encodedEntries_cases:
  assumes "(k, v) \<in> set (encodedEntries options)"
  shows "(k, v) \<in> set (restEntries (rest options))
     \<or> (k = ''thresholds'' \<and> (\<exists>ts. thresholds options = Some ts \<and> v = JString (encodeThresholds ts)))
     \<or> (k = ''lineLevels'' \<and> (\<exists>ls. lineLevels options = Some ls \<and> v = JString (encodeLevels ls)))
     \<or> (k = ''polygonLevels''
          \<and> (\<exists>ps. polygonLevels options = Some ps \<and> v = JString (encodeLevels ps)))"
  using assms unfolding encodedEntries_def Let_def
  by (auto split: option.splits dest!: set_update_cases)

lemma encodedEntries_keys:
  "fst ` set (encodedEntries options)
     = fst ` set (restEntries (rest options))
       \<union> (case thresholds options of None \<Rightarrow> {} | Some ts \<Rightarrow> {''thresholds''})
       \<union> (case lineLevels options of None \<Rightarrow> {} | Some ls \<Rightarrow> {''lineLevels''})
       \<union> (case polygonLevels options of None \<Rightarrow> {} | Some ps \<Rightarrow> {''polygonLevels''})"
  unfolding encodedEntries_def Let_def
  by (auto simp: dom_update split: option.splits)

lemma zoomProperty_apply:
  "zoomProperty name f axis k
     = (if k = name then map_option (\<lambda>m. JObject (zoomObject f m)) axis else None)"
  by (cases axis) (simp_all add: zoomProperty_def)

lemma objectOf_apply:
  "objectOf options k =
     (if k = ''polygonLevels'' \<and> polygonLevels options \<noteq> None
      then map_option (\<lambda>m. JObject (zoomObject levelsValue m)) (polygonLevels options)
      else if k = ''lineLevels'' \<and> lineLevels options \<noteq> None
      then map_option (\<lambda>m. JObject (zoomObject levelsValue m)) (lineLevels options)
      else if k = ''thresholds'' \<and> thresholds options \<noteq> None
      then map_option (\<lambda>m. JObject (zoomObject thresholdValue m)) (thresholds options)
      else map_of (restEntries (rest options)) k)"
  by (auto simp: objectOf_def map_add_def zoomProperty_apply split: option.splits)

lemma zoom_names_not_rest:
  "''thresholds'' \<notin> set restNames" "''lineLevels'' \<notin> set restNames"
  "''polygonLevels'' \<notin> set restNames"
  by (simp_all add: restNames_def)

lemma restEntries_no_zoom_name:
  "map_of (restEntries r) ''thresholds'' = None" "map_of (restEntries r) ''lineLevels'' = None"
  "map_of (restEntries r) ''polygonLevels'' = None"
  using restEntries_names [of _ _ r] zoom_names_not_rest
  by (force simp: map_of_eq_None_iff)+

lemma zoomObject_thresholdArrays:
  "zoomObject thresholdValue (map (\<lambda>(zoom, value). (zoom, Several (thresholdList value))) ts)
     = zoomObject (\<lambda>value. ZArray (map Num (thresholdList value))) ts"
  by (simp add: zoomObject_def zoomEntries_def thresholdValue_def comp_def case_prod_unfold)

lemma thresholdArrays_fields:
  "rest (thresholdArrays options) = rest options"
  "lineLevels (thresholdArrays options) = lineLevels options"
  "polygonLevels (thresholdArrays options) = polygonLevels options"
  "thresholds (thresholdArrays options)
     = map_option (map (\<lambda>(zoom, value). (zoom, Several (thresholdList value)))) (thresholds options)"
  by (simp_all add: thresholdArrays_def)

lemma thresholdArrays_same:
  assumes "thresholdsAreArrays options"
  shows "thresholdArrays options = options"
proof (cases "thresholds options")
  case None
  then show ?thesis by (simp add: thresholdArrays_def)
next
  case (Some ts)
  have "(case e of (zoom, value) \<Rightarrow> (zoom, Several (thresholdList value))) = e"
    if "e \<in> set ts" for e
  proof -
    obtain z v where e: "e = (z, v)" by (cases e)
    from assms Some that e have "case v of Single n \<Rightarrow> False | Several ns \<Rightarrow> True"
      by (auto simp: thresholdsAreArrays_def list_all_iff)
    then show ?thesis by (cases v) (simp_all add: e thresholdList_def)
  qed
  then have "map (\<lambda>(zoom, value). (zoom, Several (thresholdList value))) ts = ts"
    by (simp add: map_idI)
  with Some show ?thesis by (simp add: thresholdArrays_def)
qed

end
